theory Spec2Isabelle
  imports Complex_Main "HOL-Library.Word" "HOL-Library.Product_Lexorder"
begin

unbundle bit_operations_syntax

section \<open>Conventions of the embedding\<close>

text \<open>
  The node of the search tree (the source file of \<^verbatim>\<open>mcts/node.h\<close>), the t-quantile table
  of \<^verbatim>\<open>mcts/lcb.h\<close> and the part of \<^verbatim>\<open>game/game_state.cc\<close> they use are embedded function
  by function.
  \<^item> \<^verbatim>\<open>float\<close> and \<^verbatim>\<open>double\<close> are the type \<open>real\<close>: arithmetic is exact, rounding
    is not modelled. A float operation whose IEEE result is not a finite number is an
    error value: a division by zero is \<open>DivisionByZero\<close>, a square root of a negative
    number is \<open>DomainError\<close>.
  \<^item> \<^verbatim>\<open>int\<close> counters (\<^verbatim>\<open>visits_\<close>, \<^verbatim>\<open>running_threads_\<close>) are \<open>int\<close>; the 32-bit
    range is not modelled.
  \<^item> Atomics are read and written sequentially: one call runs at a time.
  \<^item> A failed \<^verbatim>\<open>assert\<close> is the error \<open>AssertionFailed\<close>, a null dereference is
    \<open>NullPointer\<close>, a C++ exception is \<open>InvalidArgument\<close>, an iterator moved
    past its range is \<open>OutOfRange\<close>.
  \<^item> Member names lose their trailing underscore (\<^verbatim>\<open>visits_\<close> is \<open>visits\<close>).
\<close>

datatype error =
  DivisionByZero | DomainError | NullPointer | AssertionFailed | InvalidArgument | OutOfRange

definition bindE :: "error + 'a \<Rightarrow> ('a \<Rightarrow> error + 'b) \<Rightarrow> error + 'b" where
  "bindE m f = (case m of Inl e \<Rightarrow> Inl e | Inr x \<Rightarrow> f x)"

definition fdiv :: "real \<Rightarrow> real \<Rightarrow> error + real" where
  "fdiv a b = (if b = 0 then Inl DivisionByZero else Inr (a / b))"

definition fsqrt :: "real \<Rightarrow> error + real" where
  "fsqrt x = (if x < 0 then Inl DomainError else Inr (sqrt x))"

section \<open>Data model\<close>

text \<open>Modelled from the spec: the colour constants of \<^verbatim>\<open>game/types.h\<close>, which is absent:
  Black, White and \<open>kInvalid\<close>, the sentinel of a node without children. A colour is an
  \<^verbatim>\<open>int\<close> in the sources; \<open>kEmpty\<close> stands for every other value.\<close>

datatype Color = kBlack | kWhite | kEmpty | kInvalid

text \<open>Modelled from the spec: \<^verbatim>\<open>Node::StatusType\<close> and \<^verbatim>\<open>Node::ExpandState\<close> of the absent
  \<^verbatim>\<open>mcts/node.h\<close>. \<open>kInvalidStatus\<close> is \<^verbatim>\<open>StatusType::kInvalid\<close>.\<close>

datatype StatusType = kActive | kPruned | kInvalidStatus

datatype ExpandState = kInitial | kExpanding | kExpanded

record NodeEvals =
  black_wl :: real
  draw :: real
  black_final_score :: real
  black_ownership :: "real list"

text \<open>The data members of \<^verbatim>\<open>Node\<close>. Its array of \<^verbatim>\<open>kNumIntersections\<close> floats, like the one
  of \<^verbatim>\<open>NodeEvals\<close>, is a list of that length. \<open>node_black_wl\<close> is the member \<^verbatim>\<open>black_wl_\<close>.\<close>

record NodeData =
  vertex :: int
  policy :: real
  color :: Color
  visits :: int
  node_black_wl :: real
  accumulated_black_wl :: real
  accumulated_draw :: real
  accumulated_black_fs :: real
  squared_eval_diff :: real
  avg_black_ownership :: "real list"
  status :: StatusType
  expand_state :: ExpandState
  running_threads :: int
  score_bouns :: real

text \<open>An \<^verbatim>\<open>Edge\<close> holds a vertex, a prior and the pointer to its node, null until the edge
  is inflated. A node owns the edges of its children.\<close>

datatype Node = Node (members: NodeData) (children: "Edge list")
and Edge = Edge (Edge_GetVertex: int) (Edge_GetPolicy: real) (Edge_Get: "Node option")

definition set_members :: "(NodeData \<Rightarrow> NodeData) \<Rightarrow> Node \<Rightarrow> Node" where
  "set_members f n = Node (f (members n)) (children n)"

definition set_children :: "Edge list \<Rightarrow> Node \<Rightarrow> Node" where
  "set_children cs n = Node (members n) cs"

text \<open>Modelled from the spec: the member initialisers of the absent \<^verbatim>\<open>mcts/node.h\<close>. The
  constructor \<^verbatim>\<open>Node::Node(vertex, policy)\<close> sets the first two; a new node has no visits,
  zero accumulators, status Active, expand state Initial and the invalid colour.\<close>

definition NewNode :: "nat \<Rightarrow> int \<Rightarrow> real \<Rightarrow> Node" where
  "NewNode kNumIntersections vtx pol =
     Node \<lparr> vertex = vtx, policy = pol, color = kInvalid, visits = 0,
            node_black_wl = 0, accumulated_black_wl = 0, accumulated_draw = 0,
            accumulated_black_fs = 0, squared_eval_diff = 0,
            avg_black_ownership = replicate kNumIntersections 0,
            status = kActive, expand_state = kInitial, running_threads = 0,
            score_bouns = 0 \<rparr> []"

section \<open>Getters and the node state machine\<close>

definition VIRTUAL_LOSS_COUNT :: int where
  "VIRTUAL_LOSS_COUNT = 3"

definition GetVertex :: "Node \<Rightarrow> int" where
  "GetVertex n = vertex (members n)"

definition GetPolicy :: "Node \<Rightarrow> real" where
  "GetPolicy n = policy (members n)"

definition GetVisits :: "Node \<Rightarrow> int" where
  "GetVisits n = visits (members n)"

definition GetVirtualLoss :: "Node \<Rightarrow> int" where
  "GetVirtualLoss n = VIRTUAL_LOSS_COUNT * running_threads (members n)"

definition GetFinalScore :: "Color \<Rightarrow> Node \<Rightarrow> error + real" where
  "GetFinalScore c n =
     bindE (fdiv (accumulated_black_fs (members n)) (real_of_int (GetVisits n)))
       (\<lambda>score. if c = kBlack then Inr score else Inr (0 - score))"

definition GetDraw :: "Node \<Rightarrow> error + real" where
  "GetDraw n = fdiv (accumulated_draw (members n)) (real_of_int (GetVisits n))"

definition GetNetWL :: "Color \<Rightarrow> Node \<Rightarrow> real" where
  "GetNetWL c n = (if c = kBlack then node_black_wl (members n) else 1 - node_black_wl (members n))"

definition GetWL :: "Color \<Rightarrow> bool \<Rightarrow> Node \<Rightarrow> error + real" where
  "GetWL c use_virtual_loss n =
     (let virtual_loss = (if use_virtual_loss then GetVirtualLoss n else 0);
          vis = GetVisits n + virtual_loss;
          accumulated_wl = accumulated_black_wl (members n);
          accumulated_wl' = (if c = kWhite \<and> use_virtual_loss
                             then accumulated_wl + real_of_int virtual_loss
                             else accumulated_wl)
      in bindE (fdiv accumulated_wl' (real_of_int vis))
           (\<lambda>eval. if c = kBlack then Inr eval else Inr (1 - eval)))"

definition HaveChildren :: "Node \<Rightarrow> bool" where
  "HaveChildren n \<longleftrightarrow> color (members n) \<noteq> kInvalid"

definition IsPruned :: "Node \<Rightarrow> bool" where
  "IsPruned n \<longleftrightarrow> status (members n) = kPruned"

definition IsActive :: "Node \<Rightarrow> bool" where
  "IsActive n \<longleftrightarrow> status (members n) = kActive"

definition IsValid :: "Node \<Rightarrow> bool" where
  "IsValid n \<longleftrightarrow> status (members n) \<noteq> kInvalidStatus"

definition Invalidate :: "Node \<Rightarrow> Node" where
  "Invalidate n = (if IsValid n then set_members (\<lambda>d. d\<lparr>status := kInvalidStatus\<rparr>) n else n)"

definition Expandable :: "Node \<Rightarrow> bool" where
  "Expandable n \<longleftrightarrow> expand_state (members n) = kInitial"

definition IsExpanding :: "Node \<Rightarrow> bool" where
  "IsExpanding n \<longleftrightarrow> expand_state (members n) = kExpanding"

definition IsExpanded :: "Node \<Rightarrow> bool" where
  "IsExpanded n \<longleftrightarrow> expand_state (members n) = kExpanded"

text \<open>\<^verbatim>\<open>compare_exchange_strong\<close> from Initial to Expanding: the result tells whether the
  exchange happened. On failure only the local \<^verbatim>\<open>expected\<close> is written.\<close>

definition AcquireExpanding :: "Node \<Rightarrow> bool \<times> Node" where
  "AcquireExpanding n =
     (if expand_state (members n) = kInitial
      then (True, set_members (\<lambda>d. d\<lparr>expand_state := kExpanding\<rparr>) n)
      else (False, n))"

definition ExpandDone :: "Node \<Rightarrow> error + Node" where
  "ExpandDone n =
     (let v = expand_state (members n);
          n' = set_members (\<lambda>d. d\<lparr>expand_state := kExpanded\<rparr>) n
      in if v = kExpanding then Inr n' else Inl AssertionFailed)"

definition ExpandCancel :: "Node \<Rightarrow> error + Node" where
  "ExpandCancel n =
     (let v = expand_state (members n);
          n' = set_members (\<lambda>d. d\<lparr>expand_state := kInitial\<rparr>) n
      in if v = kExpanding then Inr n' else Inl AssertionFailed)"

text \<open>\<^verbatim>\<open>WaitExpanded\<close> spins until the state is Expanded. With no other thread running the
  state never changes, so the loop returns at once or never; never is \<open>None\<close>.\<close>

partial_function (option) WaitExpanded :: "Node \<Rightarrow> unit option" where
  "WaitExpanded n = (if expand_state (members n) = kExpanded then Some () else WaitExpanded n)"

section \<open>Backup\<close>

definition WelfordDelta :: "real \<Rightarrow> real \<Rightarrow> int \<Rightarrow> error + real" where
  "WelfordDelta eval old_acc_eval old_visits =
     bindE (if old_visits > 0
            then bindE (fdiv old_acc_eval (real_of_int old_visits)) (\<lambda>q. Inr (eval - q))
            else Inr 0)
       (\<lambda>old_delta.
          bindE (fdiv (old_acc_eval + eval) (real_of_int (old_visits + 1)))
            (\<lambda>q. let new_delta = eval - q in Inr (old_delta * new_delta)))"

text \<open>The loop over the intersections: both arrays have \<^verbatim>\<open>kNumIntersections\<close> entries.\<close>

definition update_ownership :: "real list \<Rightarrow> real list \<Rightarrow> int \<Rightarrow> error + real list" where
  "update_ownership eval_owners avg_owners old_visits =
     (if real_of_int (old_visits + 1) = 0 \<and> eval_owners \<noteq> [] \<and> avg_owners \<noteq> []
      then Inl DivisionByZero
      else Inr (map (\<lambda>(eval_owner, avg_owner).
                  avg_owner + (eval_owner - avg_owner) / real_of_int (old_visits + 1))
                (zip eval_owners avg_owners)))"

definition Update :: "NodeEvals \<Rightarrow> Node \<Rightarrow> error + Node" where
  "Update evals n =
     (let eval = black_wl evals;
          drw = draw evals;
          black_fs = black_final_score evals;
          old_acc_eval = accumulated_black_wl (members n);
          old_visits = visits (members n)
      in bindE (WelfordDelta eval old_acc_eval old_visits)
           (\<lambda>delta.
              bindE (update_ownership (black_ownership evals)
                       (avg_black_ownership (members n)) old_visits)
                (\<lambda>owners.
                   Inr (set_members (\<lambda>d. d\<lparr> visits := visits d + 1,
                          squared_eval_diff := squared_eval_diff d + delta,
                          accumulated_black_wl := accumulated_black_wl d + eval,
                          accumulated_draw := accumulated_draw d + drw,
                          accumulated_black_fs := accumulated_black_fs d + black_fs,
                          avg_black_ownership := owners \<rparr>) n))))"


section \<open>The t-quantile table and the lower confidence bound\<close>




definition kEntrySize :: nat where
  "kEntrySize = 1000"

fun mapE :: "('a \<Rightarrow> error + 'b) \<Rightarrow> 'a list \<Rightarrow> error + 'b list" where
  "mapE f [] = Inr []"
| "mapE f (x # xs) = bindE (f x) (\<lambda>y. bindE (mapE f xs) (\<lambda>ys. Inr (y # ys)))"


definition CachedTQuantile :: "real list \<Rightarrow> int \<Rightarrow> real" where
  "CachedTQuantile z_lookup_table v =
     (if v < 1 then z_lookup_table ! 0
      else if v < int kEntrySize then z_lookup_table ! nat (v - 1)
      else z_lookup_table ! (kEntrySize - 1))"

definition GetLcbVariance :: "real \<Rightarrow> int \<Rightarrow> Node \<Rightarrow> error + real" where
  "GetLcbVariance default_var vis n =
     (if vis > 1 then fdiv (squared_eval_diff (members n)) (real_of_int (vis - 1))
      else Inr default_var)"

definition GetLcb :: "real list \<Rightarrow> Color \<Rightarrow> Node \<Rightarrow> error + real" where
  "GetLcb z_lookup_table c n =
     (let vis = GetVisits n
      in if vis \<le> 1 then Inr (GetPolicy n - 1000000)
         else bindE (GetWL c False n)
           (\<lambda>mean. bindE (GetLcbVariance 1 vis n)
             (\<lambda>variance. bindE (fdiv variance (real_of_int vis))
               (\<lambda>q. bindE (fsqrt q)
                 (\<lambda>stddev. let z = CachedTQuantile z_lookup_table (vis - 1)
                            in Inr (mean - z * stddev))))))"

definition GetScoreUtility :: "Color \<Rightarrow> real \<Rightarrow> real \<Rightarrow> Node \<Rightarrow> error + real" where
  "GetScoreUtility c div' parent_score n =
     bindE (GetFinalScore c n)
       (\<lambda>fs. let score = fs + score_bouns (members n)
             in bindE (fdiv (score - parent_score) div') (\<lambda>q. Inr (tanh q)))"

section \<open>The game state and the external collaborators\<close>

text \<open>C++ integer division and remainder truncate towards zero.\<close>

definition C_div :: "int \<Rightarrow> int \<Rightarrow> int" where
  "C_div a b = (if (a < 0) = (b < 0) then \<bar>a\<bar> div \<bar>b\<bar> else - (\<bar>a\<bar> div \<bar>b\<bar>))"

definition C_mod :: "int \<Rightarrow> int \<Rightarrow> int" where
  "C_mod a b = a - b * C_div a b"

text \<open>Modelled from the spec: the winner constants of the absent \<^verbatim>\<open>game/types.h\<close>.\<close>

datatype Winner = kUndecide | kBlackWon | kWhiteWon | kDrawGame

text \<open>\<^verbatim>\<open>GameState\<close> over a board of an abstract type: the class \<^verbatim>\<open>Board\<close> is not part of
  the sources. An entry of \<^verbatim>\<open>game_history_\<close> is a shared pointer, null when
  \<^verbatim>\<open>resize\<close> created it.\<close>

record 'b GameState =
  board :: 'b
  ko_hash_history :: "64 word list"
  game_history :: "'b option list"
  komi_hash :: "64 word"
  komi_integer :: int
  komi_half :: bool
  komi_negative :: bool
  winner :: Winner

text \<open>The output of the network (\<^verbatim>\<open>Network::Result\<close>), arrays as functions of the index.\<close>

record NetResult =
  probabilities :: "nat \<Rightarrow> real"
  pass_probability :: real
  wdl :: "nat \<Rightarrow> real"
  wdl_winrate :: real
  stm_winrate :: real
  ownership :: "nat \<Rightarrow> real"
  final_score :: real
  result_board_size :: int
  result_komi :: real

record Parameters =
  root_policy_temp :: real
  policy_temp :: real
  no_dcnn :: bool
  root_dcnn :: bool
  symm_pruning :: bool
  use_stm_winrate :: bool
  use_rollout :: bool
  lcb_utility_factor :: real
  lcb_reduction :: real
  score_utility_div :: real

record AnalysisConfig =
  IsLegal :: "int \<Rightarrow> Color \<Rightarrow> int \<Rightarrow> bool"

text \<open>What the sources do not contain is a parameter: the vertex constants of
  \<^verbatim>\<open>game/types.h\<close>, the symmetry constants and \<^verbatim>\<open>TransformVertex\<close> of
  \<^verbatim>\<open>game/symmetry.h\<close>, the methods of \<^verbatim>\<open>Board\<close>, the methods of \<^verbatim>\<open>GameState\<close> defined in
  other files, the network and the rollout.\<close>

record 'b Env =
  kPass :: int
  kResign :: int
  kNullVertex :: int
  kNumIntersections :: nat
  kIdentitySymmetry :: int
  kNumSymmetris :: int
  TransformVertex :: "int \<Rightarrow> int \<Rightarrow> int \<Rightarrow> int"
  board_GetPasses :: "'b \<Rightarrow> int"
  board_GetToMove :: "'b \<Rightarrow> Color"
  board_GetBoardSize :: "'b \<Rightarrow> int"
  board_GetNumIntersections :: "'b \<Rightarrow> int"
  board_GetMoveNumber :: "'b \<Rightarrow> int"
  board_GetVertex :: "'b \<Rightarrow> int \<Rightarrow> int \<Rightarrow> int"
  board_GetHash :: "'b \<Rightarrow> 64 word"
  board_GetKoHash :: "'b \<Rightarrow> 64 word"
  board_IsLegalMove :: "'b \<Rightarrow> int \<Rightarrow> Color \<Rightarrow> bool"
  board_IsLegalMove_avoid :: "'b \<Rightarrow> int \<Rightarrow> Color \<Rightarrow> (int \<Rightarrow> Color \<Rightarrow> bool) \<Rightarrow> bool"
  board_PlayMoveAssumeLegal :: "'b \<Rightarrow> int \<Rightarrow> Color \<Rightarrow> 'b"
  state_GetStrictSafeArea :: "'b GameState \<Rightarrow> nat \<Rightarrow> bool"
  state_ComputeSymmetryHash :: "'b GameState \<Rightarrow> int \<Rightarrow> 64 word"
  state_GetMoveHash :: "'b GameState \<Rightarrow> int \<Rightarrow> Color \<Rightarrow> 64 word"
  state_GetGammasPolicy :: "'b GameState \<Rightarrow> Color \<Rightarrow> nat \<Rightarrow> real"
  network_GetOutput :: "'b GameState \<Rightarrow> real \<Rightarrow> NetResult"
  GetBlackRolloutResult :: "'b GameState \<Rightarrow> real list \<Rightarrow> real \<times> real \<times> real list"

definition GetPasses :: "'b Env \<Rightarrow> 'b GameState \<Rightarrow> int" where
  "GetPasses env st = board_GetPasses env (board st)"

definition GetToMove :: "'b Env \<Rightarrow> 'b GameState \<Rightarrow> Color" where
  "GetToMove env st = board_GetToMove env (board st)"

definition GetBoardSize :: "'b Env \<Rightarrow> 'b GameState \<Rightarrow> int" where
  "GetBoardSize env st = board_GetBoardSize env (board st)"

definition GetNumIntersections :: "'b Env \<Rightarrow> 'b GameState \<Rightarrow> int" where
  "GetNumIntersections env st = board_GetNumIntersections env (board st)"

definition GetMoveNumber :: "'b Env \<Rightarrow> 'b GameState \<Rightarrow> int" where
  "GetMoveNumber env st = board_GetMoveNumber env (board st)"

definition state_GetVertex :: "'b Env \<Rightarrow> 'b GameState \<Rightarrow> int \<Rightarrow> int \<Rightarrow> int" where
  "state_GetVertex env st x y = board_GetVertex env (board st) x y"

text \<open>\<^verbatim>\<open>GetHash\<close> and \<^verbatim>\<open>GetKoHash\<close> return \<^verbatim>\<open>int\<close>: the 64-bit key is cut to 32 bits, and
  sign-extended again where it meets a 64-bit value.\<close>

definition GetHash :: "'b Env \<Rightarrow> 'b GameState \<Rightarrow> 32 word" where
  "GetHash env st = ucast (xor (board_GetHash env (board st)) (komi_hash st))"

definition GetKoHash :: "'b Env \<Rightarrow> 'b GameState \<Rightarrow> 32 word" where
  "GetKoHash env st = ucast (board_GetKoHash env (board st))"

definition GetKomi :: "'b GameState \<Rightarrow> real" where
  "GetKomi st =
     (let komi = real_of_int (komi_integer st) + (if komi_half st then 1 else 0) * 0.5
      in if komi_negative st then - komi else komi)"

definition IsLegalMove :: "'b Env \<Rightarrow> 'b GameState \<Rightarrow> int \<Rightarrow> Color \<Rightarrow> bool" where
  "IsLegalMove env st vtx c = board_IsLegalMove env (board st) vtx c"

definition IsLegalMove_avoid ::
    "'b Env \<Rightarrow> 'b GameState \<Rightarrow> int \<Rightarrow> Color \<Rightarrow> (int \<Rightarrow> Color \<Rightarrow> bool) \<Rightarrow> bool" where
  "IsLegalMove_avoid env st vtx c AvoidToMove =
     board_IsLegalMove_avoid env (board st) vtx c AvoidToMove"

text \<open>\<^verbatim>\<open>std::vector::resize\<close>: cut, or fill with value-initialised elements. A negative
  \<^verbatim>\<open>int\<close> converts to a size no vector can have, and \<^verbatim>\<open>resize\<close> throws.\<close>

definition resize :: "'a \<Rightarrow> int \<Rightarrow> 'a list \<Rightarrow> error + 'a list" where
  "resize fill k xs =
     (if k < 0 then Inl InvalidArgument
      else Inr (take (nat k) xs @ replicate (nat k - length xs) fill))"

definition PlayMove_color ::
    "'b Env \<Rightarrow> 'b GameState \<Rightarrow> int \<Rightarrow> Color \<Rightarrow> error + (bool \<times> 'b GameState)" where
  "PlayMove_color env st vtx c =
     (if vtx = kResign env
      then Inr (True, st\<lparr>winner := (if c = kBlack then kWhiteWon else kBlackWon)\<rparr>)
      else if IsLegalMove env st vtx c
      then (let st1 = st\<lparr>board := board_PlayMoveAssumeLegal env (board st) vtx c\<rparr>
            in bindE (resize 0 (GetMoveNumber env st1) (ko_hash_history st1))
                 (\<lambda>kh. bindE (resize None (GetMoveNumber env st1) (game_history st1))
                   (\<lambda>gh. Inr (True,
                      st1\<lparr>ko_hash_history := kh @ [scast (GetKoHash env st1)],
                          game_history := gh @ [Some (board st1)]\<rparr>))))
      else Inr (False, st))"

definition PlayMove :: "'b Env \<Rightarrow> 'b GameState \<Rightarrow> int \<Rightarrow> error + (bool \<times> 'b GameState)" where
  "PlayMove env st vtx = PlayMove_color env st vtx (GetToMove env st)"

text \<open>\<^verbatim>\<open>IsSuperko\<close> looks the current ko hash up in the history without its last entry.
  Stepping the reverse iterator of an empty history is out of range.\<close>

definition IsSuperko :: "'b Env \<Rightarrow> 'b GameState \<Rightarrow> error + bool" where
  "IsSuperko env st =
     (case rev (ko_hash_history st) of
        [] \<Rightarrow> Inl OutOfRange
      | newest # older \<Rightarrow> Inr (scast (GetKoHash env st) \<in> set older))"

section \<open>Expansion\<close>

text \<open>\<^verbatim>\<open>Network::Result{}\<close>: every field zero.\<close>

definition empty_Result :: NetResult where
  "empty_Result =
     \<lparr> probabilities = (\<lambda>idx. 0), pass_probability = 0, wdl = (\<lambda>idx. 0), wdl_winrate = 0,
       stm_winrate = 0, ownership = (\<lambda>idx. 0), final_score = 0, result_board_size = 0,
       result_komi = 0 \<rparr>"

definition ApplyNoDcnnPolicy ::
    "'b Env \<Rightarrow> 'b GameState \<Rightarrow> Color \<Rightarrow> NetResult \<Rightarrow> error + NetResult" where
  "ApplyNoDcnnPolicy env state c raw_netlist =
     (let num_intersections = GetNumIntersections env state;
          pol = state_GetGammasPolicy env state c
      in bindE (fdiv 0.1 (real_of_int num_intersections))
           (\<lambda>pass_prob. Inr (raw_netlist\<lparr>
              probabilities := (\<lambda>idx. if int idx < num_intersections then pol idx
                                        else probabilities raw_netlist idx),
              ownership := (\<lambda>idx. if int idx < num_intersections then 0
                                    else ownership raw_netlist idx),
              result_board_size := GetBoardSize env state,
              result_komi := GetKomi state,
              pass_probability := pass_prob,
              final_score := 0,
              wdl := (\<lambda>idx. if idx = 0 then 0.5 else if idx = 1 then 0
                              else if idx = 2 then 0.5 else wdl raw_netlist idx),
              wdl_winrate := 0.5,
              stm_winrate := 0.5 \<rparr>)))"

text \<open>\<^verbatim>\<open>ApplyNetOutput\<close> stores the evaluation in the node and in \<^verbatim>\<open>node_evals\<close>. The rollout
  returns its result and its score and writes the ownership array it is given.\<close>

definition ApplyNetOutput ::
    "'b Env \<Rightarrow> Parameters \<Rightarrow> 'b GameState \<Rightarrow> NetResult \<Rightarrow> NodeEvals \<Rightarrow> Color \<Rightarrow> Node
      \<Rightarrow> Node \<times> NodeEvals" where
  "ApplyNetOutput env param state raw_netlist node_evals c n =
     (let drw = wdl raw_netlist 1;
          wl0 = (if use_stm_winrate param then stm_winrate raw_netlist
                 else (wdl raw_netlist 0 - wdl raw_netlist 2 + 1) / 2);
          wl = (if c = kWhite then 1 - wl0 else wl0);
          fs = (if c = kWhite then 0 - final_score raw_netlist else final_score raw_netlist);
          owners = map (\<lambda>idx. if c = kWhite then 0 - ownership raw_netlist idx
                                else ownership raw_netlist idx)
                     [0..<kNumIntersections env];
          rollout = GetBlackRolloutResult env state owners;
          do_rollout = (use_rollout param \<or> no_dcnn param);
          owners' = (if do_rollout then snd (snd rollout) else owners);
          black_wl' = (if do_rollout \<and> no_dcnn param then fst rollout else wl);
          black_fs = (if do_rollout \<and> no_dcnn param then fst (snd rollout) else fs)
      in (set_members (\<lambda>d. d\<lparr> node_black_wl := black_wl',
                                avg_black_ownership := replicate (kNumIntersections env) 0 \<rparr>) n,
          node_evals\<lparr> black_wl := black_wl', draw := drw, black_final_score := black_fs,
                       black_ownership := owners' \<rparr>))"

definition apply_symm_pruning :: "'b Env \<Rightarrow> Parameters \<Rightarrow> 'b GameState \<Rightarrow> bool" where
  "apply_symm_pruning env param state \<longleftrightarrow>
     symm_pruning param \<and> GetBoardSize env state \<ge> GetMoveNumber env state"

text \<open>\<^verbatim>\<open>symm_base_hash\<close>: zero, and the symmetry hash of the state where pruning applies.\<close>

definition symm_base_hash :: "'b Env \<Rightarrow> Parameters \<Rightarrow> 'b GameState \<Rightarrow> int \<Rightarrow> 64 word" where
  "symm_base_hash env param state symm =
     (if apply_symm_pruning env param state \<and> kIdentitySymmetry env \<le> symm
         \<and> symm < kNumSymmetris env
      then state_ComputeSymmetryHash env state symm else 0)"

text \<open>The inner loop over the symmetries stops at the first hash found: it finds one exactly
  when one of the symmetries has its hash in \<^verbatim>\<open>moves_hash\<close>.\<close>

definition hash_found ::
    "'b Env \<Rightarrow> Parameters \<Rightarrow> 'b GameState \<Rightarrow> Color \<Rightarrow> int \<Rightarrow> 64 word list \<Rightarrow> bool" where
  "hash_found env param state c vtx moves_hash \<longleftrightarrow>
     list_ex (\<lambda>symm.
        (let symm_vtx = TransformVertex env (GetBoardSize env state) symm vtx;
             symm_hash = xor (symm_base_hash env param state symm)
                             (state_GetMoveHash env state symm_vtx c)
         in symm_hash \<in> set moves_hash))
       [kIdentitySymmetry env + 1 .. kNumSymmetris env - 1]"

text \<open>One round of the loop over the intersections. The state of the loop is
  \<^verbatim>\<open>nodelist\<close>, \<^verbatim>\<open>legal_accumulate\<close> and \<^verbatim>\<open>moves_hash\<close>. A zero board size traps in the
  integer division.\<close>

definition candidate_step ::
    "'b Env \<Rightarrow> Parameters \<Rightarrow> AnalysisConfig \<Rightarrow> 'b GameState \<Rightarrow> Color \<Rightarrow> NetResult \<Rightarrow> nat
      \<Rightarrow> (real \<times> int) list \<times> real \<times> 64 word list
      \<Rightarrow> error + ((real \<times> int) list \<times> real \<times> 64 word list)" where
  "candidate_step env param config state c raw_netlist idx s =
     (case s of (nodelist, legal_accumulate, moves_hash) \<Rightarrow>
        let board_size = GetBoardSize env state
        in if board_size = 0 then Inl DivisionByZero
           else
             let x = C_mod (int idx) board_size;
                 y = C_div (int idx) board_size;
                 vtx = state_GetVertex env state x y;
                 pol = probabilities raw_netlist idx;
                 movenum = GetMoveNumber env state
             in if \<not> IsLegalMove_avoid env state vtx c
                        (\<lambda>vtx color. \<not> IsLegal config vtx color movenum)
                   \<or> state_GetStrictSafeArea env state idx
                then Inr s
                else if apply_symm_pruning env param state
                then (if \<not> hash_found env param state c vtx moves_hash
                      then Inr (nodelist @ [(pol, vtx)], legal_accumulate + pol,
                                moves_hash @ [xor (scast (GetHash env state))
                                                  (state_GetMoveHash env state vtx c)])
                      else Inr (nodelist, legal_accumulate + pol, moves_hash))
                else Inr (nodelist @ [(pol, vtx)], legal_accumulate + pol, moves_hash))"

fun candidates_loop ::
    "'b Env \<Rightarrow> Parameters \<Rightarrow> AnalysisConfig \<Rightarrow> 'b GameState \<Rightarrow> Color \<Rightarrow> NetResult \<Rightarrow> nat list
      \<Rightarrow> (real \<times> int) list \<times> real \<times> 64 word list
      \<Rightarrow> error + ((real \<times> int) list \<times> real \<times> 64 word list)" where
  "candidates_loop env param config state c raw_netlist [] s = Inr s"
| "candidates_loop env param config state c raw_netlist (idx # rest) s =
     bindE (candidate_step env param config state c raw_netlist idx s)
       (candidates_loop env param config state c raw_netlist rest)"

text \<open>The candidates and their policy mass after the loop, for \<^verbatim>\<open>idx\<close> from 0 below
  \<^verbatim>\<open>num_intersections\<close>.\<close>

definition collect_candidates ::
    "'b Env \<Rightarrow> Parameters \<Rightarrow> AnalysisConfig \<Rightarrow> 'b GameState \<Rightarrow> Color \<Rightarrow> NetResult
      \<Rightarrow> error + ((real \<times> int) list \<times> real)" where
  "collect_candidates env param config state c raw_netlist =
     bindE (candidates_loop env param config state c raw_netlist
              [0..<nat (GetNumIntersections env state)] ([], 0, []))
       (\<lambda>(nodelist, legal_accumulate, moves_hash). Inr (nodelist, legal_accumulate))"

text \<open>Pass is left out when there are more candidates than three quarters of the
  intersections, and forced when there is no candidate.\<close>

definition add_pass ::
    "'b Env \<Rightarrow> 'b GameState \<Rightarrow> NetResult \<Rightarrow> (real \<times> int) list \<times> real
      \<Rightarrow> (real \<times> int) list \<times> real" where
  "add_pass env state raw_netlist s =
     (case s of (nodelist, legal_accumulate) \<Rightarrow>
        let num_intersections = GetNumIntersections env state;
            allow_pass = (\<not> int (length nodelist) > C_div (3 * num_intersections) 4)
        in if allow_pass \<or> nodelist = []
           then (nodelist @ [(pass_probability raw_netlist, kPass env)],
                 legal_accumulate + pass_probability raw_netlist)
           else (nodelist, legal_accumulate))"

definition normalize_policy :: "(real \<times> int) list \<times> real \<Rightarrow> (real \<times> int) list" where
  "normalize_policy s =
     (case s of (nodelist, legal_accumulate) \<Rightarrow>
        if legal_accumulate < 1 / 10 ^ 8
        then map (\<lambda>(pol, vtx). (1 / real (length nodelist), vtx)) nodelist
        else map (\<lambda>(pol, vtx). (pol / legal_accumulate, vtx)) nodelist)"

text \<open>\<^verbatim>\<open>LinkNodeList\<close>: the stable sort of the reversed range leaves the list in descending
  order of (policy, vertex); each pair becomes an edge without a node. The vertex is cast
  to \<^verbatim>\<open>std::uint16_t\<close> on the way.\<close>

definition to_uint16 :: "int \<Rightarrow> int" where
  "to_uint16 v = uint (word_of_int v :: 16 word)"

definition LinkNodeList :: "(real \<times> int) list \<Rightarrow> Node \<Rightarrow> error + Node" where
  "LinkNodeList nodelist n =
     (let n' = set_children
                 (children n @ map (\<lambda>(pol, vtx). Edge (to_uint16 vtx) pol None)
                                 (rev (sort nodelist))) n
      in if children n' = [] then Inl AssertionFailed else Inr n')"

text \<open>The network result an expansion works with.\<close>

definition expansion_netlist ::
    "'b Env \<Rightarrow> Parameters \<Rightarrow> 'b GameState \<Rightarrow> bool \<Rightarrow> error + NetResult" where
  "expansion_netlist env param state is_root =
     (let temp = (if is_root then root_policy_temp param else policy_temp param)
      in if no_dcnn param \<and> \<not> (root_dcnn param \<and> is_root)
         then ApplyNoDcnnPolicy env state (GetToMove env state) empty_Result
         else Inr (network_GetOutput env state temp))"

definition ExpandChildren ::
    "'b Env \<Rightarrow> Parameters \<Rightarrow> 'b GameState \<Rightarrow> NodeEvals \<Rightarrow> AnalysisConfig \<Rightarrow> bool \<Rightarrow> Node
      \<Rightarrow> error + (bool \<times> Node \<times> NodeEvals)" where
  "ExpandChildren env param state node_evals config is_root n =
     (if \<not> GetPasses env state < 2 then Inl AssertionFailed
      else if HaveChildren n then Inr (False, n, node_evals)
      else case AcquireExpanding n of
        (False, n1) \<Rightarrow> Inr (False, n1, node_evals)
      | (True, n1) \<Rightarrow>
          let c = GetToMove env state;
              n2 = set_members (\<lambda>d. d\<lparr>color := c\<rparr>) n1
          in bindE (expansion_netlist env param state is_root)
               (\<lambda>raw_netlist.
                  case ApplyNetOutput env param state raw_netlist node_evals c n2 of
                    (n3, evals') \<Rightarrow>
                      bindE (collect_candidates env param config state c raw_netlist)
                        (\<lambda>cands.
                           bindE (LinkNodeList
                                    (normalize_policy (add_pass env state raw_netlist cands)) n3)
                             (\<lambda>n4. bindE (ExpandDone n4)
                                (\<lambda>n5. Inr (True, n5, evals'))))))"

section \<open>Root operations\<close>

text \<open>Modelled from the spec: \<^verbatim>\<open>Edge::Inflate\<close> of the absent \<^verbatim>\<open>mcts/node.h\<close> allocates the
  node of an edge that has none, from the vertex and the policy of the edge, and tells
  whether it did. \<^verbatim>\<open>Node::Inflate\<close> then hands the parameters on; here they are an
  argument of the functions that read them.\<close>

definition Edge_Inflate :: "nat \<Rightarrow> Edge \<Rightarrow> bool \<times> Edge" where
  "Edge_Inflate k e =
     (case Edge_Get e of
        Some nd \<Rightarrow> (False, e)
      | None \<Rightarrow> (True, Edge (Edge_GetVertex e) (Edge_GetPolicy e)
                         (Some (NewNode k (Edge_GetVertex e) (Edge_GetPolicy e)))))"

definition Inflate :: "'b Env \<Rightarrow> Edge \<Rightarrow> Edge" where
  "Inflate env child = snd (Edge_Inflate (kNumIntersections env) child)"

definition InflateAllChildren :: "'b Env \<Rightarrow> Node \<Rightarrow> Node" where
  "InflateAllChildren env n = set_children (map (Inflate env) (children n)) n"

text \<open>The first loop of \<^verbatim>\<open>KillRootSuperkos\<close>, for one child: play the move on a copy of the
  state and invalidate the node of the child when the move is not pass and repeats a
  position.\<close>

definition mark_superko :: "'b Env \<Rightarrow> 'b GameState \<Rightarrow> Edge \<Rightarrow> error + Edge" where
  "mark_superko env state child =
     (let vtx = Edge_GetVertex child
      in bindE (PlayMove env state vtx)
           (\<lambda>(ok, fork_state).
              if vtx \<noteq> kPass env
              then bindE (IsSuperko env fork_state)
                     (\<lambda>superko.
                        if superko
                        then (case Edge_Get child of
                                None \<Rightarrow> Inl NullPointer
                              | Some nd \<Rightarrow>
                                  Inr (Edge vtx (Edge_GetPolicy child) (Some (Invalidate nd))))
                        else Inr child)
              else Inr child))"

text \<open>\<^verbatim>\<open>std::remove_if\<close> and \<^verbatim>\<open>erase\<close>: the children whose node is valid stay, in their
  order. The predicate dereferences the node of every child.\<close>

fun remove_invalid :: "Edge list \<Rightarrow> error + Edge list" where
  "remove_invalid [] = Inr []"
| "remove_invalid (ele # rest) =
     (case Edge_Get ele of
        None \<Rightarrow> Inl NullPointer
      | Some nd \<Rightarrow>
          bindE (remove_invalid rest)
            (\<lambda>kept. if \<not> IsValid nd then Inr kept else Inr (ele # kept)))"

definition KillRootSuperkos :: "'b Env \<Rightarrow> 'b GameState \<Rightarrow> Node \<Rightarrow> error + Node" where
  "KillRootSuperkos env state n =
     bindE (mapE (mark_superko env state) (children n))
       (\<lambda>marked. bindE (remove_invalid marked)
          (\<lambda>kept. Inr (set_children kept n)))"

text \<open>The test the loop applies to the vertex of a child: the move is not pass, and
  \<^verbatim>\<open>IsSuperko\<close> holds in the state after \<^verbatim>\<open>PlayMove\<close>.\<close>

definition leads_to_superko :: "'b Env \<Rightarrow> 'b GameState \<Rightarrow> int \<Rightarrow> bool" where
  "leads_to_superko env state vtx \<longleftrightarrow>
     vtx \<noteq> kPass env \<and>
     (case PlayMove env state vtx of
        Inl e \<Rightarrow> False
      | Inr (ok, fork_state) \<Rightarrow> IsSuperko env fork_state = Inr True)"

section \<open>Best move and the KL divergence\<close>

text \<open>\<^verbatim>\<open>std::numeric_limits<float>::lowest()\<close>.\<close>

definition float_lowest :: real where
  "float_lowest = - ((2 - 1 / 2 ^ 23) * 2 ^ 127)"

text \<open>\<^verbatim>\<open>std::log\<close> is finite on positive arguments only.\<close>

definition flog :: "real \<Rightarrow> error + real" where
  "flog x = (if x \<le> 0 then Inl DomainError else Inr (ln x))"

text \<open>The loops over the children that pick the first best value keep the index of the best
  edge, \<open>None\<close> for the null pointer.\<close>

definition prob_step :: "nat option \<times> real \<Rightarrow> nat \<times> Edge \<Rightarrow> nat option \<times> real" where
  "prob_step s ic =
     (case s of (best_node, best_prob) \<Rightarrow>
      case ic of (i, child) \<Rightarrow>
        let node = Edge_Get child;
            is_pointer = (node \<noteq> None)
        in if is_pointer \<and> \<not> IsActive (the node) then s
           else
             let prob = (if is_pointer \<and> IsExpanding (the node)
                         then - 1 + Edge_GetPolicy child else Edge_GetPolicy child)
             in if prob > best_prob then (Some i, prob) else s)"

definition ProbSelectChild :: "'b Env \<Rightarrow> Node \<Rightarrow> (error + Node \<times> Node) option" where
  "ProbSelectChild env n =
     (case WaitExpanded n of
        None \<Rightarrow> None
      | Some u \<Rightarrow>
          Some (if \<not> HaveChildren n then Inl AssertionFailed
                else case fst (foldl prob_step (None, float_lowest)
                                 (enumerate 0 (children n))) of
                       None \<Rightarrow> Inl NullPointer
                     | Some i \<Rightarrow>
                         (let child = Inflate env (children n ! i)
                          in case Edge_Get child of
                               None \<Rightarrow> Inl NullPointer
                             | Some node \<Rightarrow>
                                 Inr (node, set_children ((children n)[i := child]) n))))"

text \<open>The visits of the inflated, active children.\<close>

definition active_visits :: "Edge list \<Rightarrow> int" where
  "active_visits cs =
     foldl (\<lambda>parentvisits child.
              case Edge_Get child of
                None \<Rightarrow> parentvisits
              | Some node \<Rightarrow> if IsActive node then parentvisits + GetVisits node
                             else parentvisits)
       0 cs"

text \<open>One entry of the LCB list. The parent's final score was read before the loop; when
  that read is undefined, so is every entry that uses it.\<close>

definition lcb_entry ::
    "Parameters \<Rightarrow> real list \<Rightarrow> Color \<Rightarrow> error + real \<Rightarrow> int \<Rightarrow> Node \<Rightarrow> error + real \<times> int" where
  "lcb_entry param z_lookup_table c score parentvisits node =
     (let lcb_utility_factor' = max 0 (lcb_utility_factor param);
          lcb_reduction' = min (max 0 (lcb_reduction param)) 1;
          vis = GetVisits node
      in bindE (GetLcb z_lookup_table c node)
           (\<lambda>lcb. bindE score
             (\<lambda>sc. bindE (GetScoreUtility c (score_utility_div param) sc node)
               (\<lambda>u. let utility = lcb_utility_factor' * u
                     in bindE (fdiv (real_of_int vis) (real_of_int parentvisits))
                          (\<lambda>q. Inr ((lcb + utility) * (1 - lcb_reduction') + lcb_reduction' * q,
                                     GetVertex node))))))"

definition GetLcbUtilityList ::
    "Parameters \<Rightarrow> real list \<Rightarrow> Color \<Rightarrow> Node \<Rightarrow> (error + (real \<times> int) list) option" where
  "GetLcbUtilityList param z_lookup_table c n =
     (case WaitExpanded n of
        None \<Rightarrow> None
      | Some u \<Rightarrow>
          Some (if \<not> HaveChildren n then Inl AssertionFailed
                else
                  let parentvisits = active_visits (children n);
                      score = GetFinalScore c n;
                      visited = filter (\<lambda>node. IsActive node \<and> GetVisits node > 0)
                                  (List.map_filter Edge_Get (children n))
                  in bindE (mapE (lcb_entry param z_lookup_table c score parentvisits) visited)
                       (\<lambda>entries. Inr (rev (sort entries)))))"

definition best_of :: "int \<Rightarrow> (real \<times> int) list \<Rightarrow> real \<times> int" where
  "best_of null_vertex lcblist =
     foldl (\<lambda>(best_value, best_move) (lcb, vtx).
              if lcb > best_value then (lcb, vtx) else (best_value, best_move))
       (float_lowest, null_vertex) lcblist"

definition GetBestMove ::
    "'b Env \<Rightarrow> Parameters \<Rightarrow> real list \<Rightarrow> Node \<Rightarrow> (error + int \<times> Node) option" where
  "GetBestMove env param z_lookup_table n =
     (case WaitExpanded n of
        None \<Rightarrow> None
      | Some u \<Rightarrow>
          if \<not> HaveChildren n then Some (Inl AssertionFailed)
          else
            (case GetLcbUtilityList param z_lookup_table (color (members n)) n of
               None \<Rightarrow> None
             | Some (Inl e) \<Rightarrow> Some (Inl e)
             | Some (Inr lcblist) \<Rightarrow>
                 if lcblist = [] \<and> HaveChildren n
                 then (case ProbSelectChild env n of
                         None \<Rightarrow> None
                       | Some (Inl e) \<Rightarrow> Some (Inl e)
                       | Some (Inr (node, n')) \<Rightarrow>
                           Some (if GetVertex node = kNullVertex env then Inl AssertionFailed
                                 else Inr (GetVertex node, n')))
                 else (let best_move = snd (best_of (kNullVertex env) lcblist)
                       in Some (if best_move = kNullVertex env then Inl AssertionFailed
                                else Inr (best_move, n)))))"

text \<open>The loop of \<^verbatim>\<open>ComputeKlDivergence\<close>: the visits of the active children, and the visits
  of the last of them at the best vertex.\<close>

definition kl_visits :: "int \<Rightarrow> Edge list \<Rightarrow> int \<times> int" where
  "kl_visits vtx cs =
     foldl (\<lambda>(parentvisits, best_visits) child.
              case Edge_Get child of
                None \<Rightarrow> (parentvisits, best_visits)
              | Some node \<Rightarrow>
                  if IsActive node
                  then (parentvisits + GetVisits node,
                        if GetVertex node = vtx then GetVisits node else best_visits)
                  else (parentvisits, best_visits))
       (0, 0) cs"

definition kl_value :: "int \<times> int \<Rightarrow> error + real" where
  "kl_value pb =
     (case pb of (parentvisits, best_visits) \<Rightarrow>
        if parentvisits = best_visits then Inr 0
        else if parentvisits = 0 \<or> best_visits = 0 then Inr (- 1)
        else bindE (fdiv (real_of_int best_visits) (real_of_int parentvisits))
               (\<lambda>q. bindE (flog q) (\<lambda>l. Inr (- l))))"

definition ComputeKlDivergence ::
    "'b Env \<Rightarrow> Parameters \<Rightarrow> real list \<Rightarrow> Node \<Rightarrow> (error + real \<times> Node) option" where
  "ComputeKlDivergence env param z_lookup_table n =
     (case GetBestMove env param z_lookup_table n of
        None \<Rightarrow> None
      | Some (Inl e) \<Rightarrow> Some (Inl e)
      | Some (Inr (vtx, n')) \<Rightarrow>
          Some (bindE (kl_value (kl_visits vtx (children n'))) (\<lambda>kl. Inr (kl, n'))))"

section \<open>Inputs of the examples\<close>


definition node_example :: Node where
  "node_example =
     Node \<lparr> vertex = 0, policy = 1/2, color = kBlack, visits = 2,
            node_black_wl = 1/2, accumulated_black_wl = 1, accumulated_draw = 0,
            accumulated_black_fs = 4, squared_eval_diff = 1/2,
            avg_black_ownership = [0],
            status = kActive, expand_state = kExpanded, running_threads = 1,
            score_bouns = 0 \<rparr> []"

text \<open>A board of two by two intersections for the examples: the vertices are 5, 6, 9 and
  10, pass is 100, the hash of a position is the exclusive or of the keys of its stones,
  and the symmetries are the eight of the square. Nothing is ever captured by a move.\<close>

record ToyBoard =
  tb_stones :: "int list"
  tb_move_number :: nat
  tb_to_move :: Color
  tb_passes :: int

definition toy_key :: "int \<Rightarrow> 64 word" where
  "toy_key v = word_of_int v"

definition toy_hash :: "int list \<Rightarrow> 64 word" where
  "toy_hash vs = foldr (\<lambda>v h. xor (toy_key v) h) vs 0"

definition toy_transform :: "int \<Rightarrow> int \<Rightarrow> int \<Rightarrow> int" where
  "toy_transform board_size symm vtx =
     (let x0 = vtx mod (board_size + 2) - 1;
          y0 = vtx div (board_size + 2) - 1;
          swap = ((symm div 4) mod 2 = 1);
          x1 = (if swap then y0 else x0);
          y1 = (if swap then x0 else y0);
          x2 = (if symm mod 2 = 1 then board_size - 1 - x1 else x1);
          y2 = (if (symm div 2) mod 2 = 1 then board_size - 1 - y1 else y1)
      in (y2 + 1) * (board_size + 2) + (x2 + 1))"

definition toy_legal :: "ToyBoard \<Rightarrow> int \<Rightarrow> bool" where
  "toy_legal b v \<longleftrightarrow> v = 100 \<or> (v \<in> set [5, 6, 9, 10] \<and> v \<notin> set (tb_stones b))"

definition result_example :: NetResult where
  "result_example =
     \<lparr> probabilities = (\<lambda>idx. 1 / 5), pass_probability = 1 / 5,
       wdl = (\<lambda>idx. if idx = 1 then 0 else 1 / 2), wdl_winrate = 1 / 2,
       stm_winrate = 1 / 2, ownership = (\<lambda>idx. 0), final_score = 0, result_board_size = 2,
       result_komi = 15 / 2 \<rparr>"

definition env_example :: "ToyBoard Env" where
  "env_example =
     \<lparr> kPass = 100, kResign = 101, kNullVertex = 0, kNumIntersections = 4,
       kIdentitySymmetry = 0, kNumSymmetris = 8, TransformVertex = toy_transform,
       board_GetPasses = tb_passes, board_GetToMove = tb_to_move,
       board_GetBoardSize = (\<lambda>b. 2), board_GetNumIntersections = (\<lambda>b. 4),
       board_GetMoveNumber = (\<lambda>b. int (tb_move_number b)),
       board_GetVertex = (\<lambda>b x y. (y + 1) * 4 + (x + 1)),
       board_GetHash = (\<lambda>b. toy_hash (tb_stones b)),
       board_GetKoHash = (\<lambda>b. toy_hash (tb_stones b)),
       board_IsLegalMove = (\<lambda>b v c. toy_legal b v),
       board_IsLegalMove_avoid = (\<lambda>b v c avoid. toy_legal b v \<and> \<not> avoid v c),
       board_PlayMoveAssumeLegal = (\<lambda>b v c.
          \<lparr> tb_stones = (if v = 100 then tb_stones b else tb_stones b @ [v]),
            tb_move_number = tb_move_number b + 1,
            tb_to_move = (if c = kBlack then kWhite else kBlack),
            tb_passes = (if v = 100 then tb_passes b + 1 else 0) \<rparr>),
       state_GetStrictSafeArea = (\<lambda>st idx. False),
       state_ComputeSymmetryHash = (\<lambda>st symm.
          toy_hash (map (toy_transform 2 symm) (tb_stones (board st)))),
       state_GetMoveHash = (\<lambda>st v c. toy_key v),
       state_GetGammasPolicy = (\<lambda>st c idx. 1 / 4),
       network_GetOutput = (\<lambda>st temp. result_example),
       GetBlackRolloutResult = (\<lambda>st owners. (1 / 2, 0, owners)) \<rparr>"

definition board_example :: ToyBoard where
  "board_example =
     \<lparr> tb_stones = [], tb_move_number = 0, tb_to_move = kBlack, tb_passes = 0 \<rparr>"

definition state_example :: "ToyBoard GameState" where
  "state_example =
     \<lparr> board = board_example, ko_hash_history = [0], game_history = [Some board_example],
       komi_hash = 0, komi_integer = 7, komi_half = True, komi_negative = False,
       winner = kUndecide \<rparr>"

definition param_example :: Parameters where
  "param_example =
     \<lparr> root_policy_temp = 1, policy_temp = 1, no_dcnn = False, root_dcnn = False,
       symm_pruning = True, use_stm_winrate = False, use_rollout = False,
       lcb_utility_factor = 1 / 10, lcb_reduction = 1 / 50, score_utility_div = 20 \<rparr>"

definition config_example :: AnalysisConfig where
  "config_example = \<lparr> IsLegal = (\<lambda>vtx c movenum. True) \<rparr>"

definition evals_zero :: NodeEvals where
  "evals_zero = \<lparr> black_wl = 0, draw = 0, black_final_score = 0, black_ownership = [] \<rparr>"

text \<open>The root of the examples, and what its expansion leaves: with symmetry pruning, without
  it, and with pruning under a network that puts no mass on any move.\<close>

definition root_example :: Node where
  "root_example = NewNode 4 (- 1) 1"

definition expanded_members :: NodeData where
  "expanded_members =
     \<lparr> vertex = - 1, policy = 1, color = kBlack, visits = 0,
       node_black_wl = 1 / 2, accumulated_black_wl = 0, accumulated_draw = 0,
       accumulated_black_fs = 0, squared_eval_diff = 0, avg_black_ownership = [0, 0, 0, 0],
       status = kActive, expand_state = kExpanded, running_threads = 0, score_bouns = 0 \<rparr>"

definition expanded_example :: Node where
  "expanded_example = Node expanded_members [Edge 100 (1 / 5) None, Edge 5 (1 / 5) None]"

definition expanded_no_symm :: Node where
  "expanded_no_symm =
     Node expanded_members
       [Edge 10 (1 / 4) None, Edge 9 (1 / 4) None, Edge 6 (1 / 4) None, Edge 5 (1 / 4) None]"


definition evals_expanded :: NodeEvals where
  "evals_expanded =
     \<lparr> black_wl = 1 / 2, draw = 0, black_final_score = 0, black_ownership = [0, 0, 0, 0] \<rparr>"

definition param_no_symm :: Parameters where
  "param_no_symm = param_example\<lparr>symm_pruning := False\<rparr>"


text \<open>A position for the superko rule: a stone at 9 was played and taken again, so the
  history holds the empty board, the board with the stone, and the empty board.\<close>

definition board_superko :: ToyBoard where
  "board_superko =
     \<lparr> tb_stones = [], tb_move_number = 2, tb_to_move = kBlack, tb_passes = 0 \<rparr>"

definition state_superko :: "ToyBoard GameState" where
  "state_superko =
     \<lparr> board = board_superko, ko_hash_history = [0, 9, 0],
       game_history = [Some board_example, None, Some board_superko],
       komi_hash = 0, komi_integer = 7, komi_half = True, komi_negative = False,
       winner = kUndecide \<rparr>"

definition root_superko :: Node where
  "root_superko =
     InflateAllChildren env_example
       (Node expanded_members
          [Edge 100 (1 / 2) None, Edge 9 (1 / 4) None, Edge 5 (1 / 4) None])"

definition root_superko_killed :: Node where
  "root_superko_killed =
     Node expanded_members
       [Edge 100 (1 / 2) (Some (NewNode 4 100 (1 / 2))),
        Edge 5 (1 / 4) (Some (NewNode 4 5 (1 / 4)))]"





section \<open>Properties\<close>

subsection \<open>Backup\<close>

lemma bindE_Inr [simp]: "bindE (Inr x) f = f x"
  by (simp add: bindE_def)

lemma bindE_Inl [simp]: "bindE (Inl e) f = Inl e"
  by (simp add: bindE_def)

lemma members_set_members [simp]: "members (set_members f n) = f (members n)"
  by (simp add: set_members_def)

lemma children_set_members [simp]: "children (set_members f n) = children n"
  by (simp add: set_members_def)

lemma WelfordDelta_value:
  "0 \<le> v \<Longrightarrow> WelfordDelta eval acc v =
     Inr ((if v > 0 then eval - acc / real_of_int v else 0) * (eval - (acc + eval) / (real_of_int v + 1)))"
  by (simp add: WelfordDelta_def fdiv_def)

lemma update_ownership_value:
  "0 \<le> v \<Longrightarrow> update_ownership es as v =
     Inr (map (\<lambda>(e, a). a + (e - a) / (real_of_int v + 1)) (zip es as))"
  by (simp add: update_ownership_def)

lemma Update_value:
  assumes "0 \<le> visits (members n)"
  shows "Update evals n = Inr (set_members (\<lambda>d. d\<lparr> visits := visits d + 1,
            squared_eval_diff := squared_eval_diff d +
               (if visits d > 0 then black_wl evals - accumulated_black_wl d / real_of_int (visits d) else 0) *
               (black_wl evals - (accumulated_black_wl d + black_wl evals) / (real_of_int (visits d) + 1)),
            accumulated_black_wl := accumulated_black_wl d + black_wl evals,
            accumulated_draw := accumulated_draw d + draw evals,
            accumulated_black_fs := accumulated_black_fs d + black_final_score evals,
            avg_black_ownership := map (\<lambda>(e, a). a + (e - a) / (real_of_int (visits d) + 1))
                 (zip (black_ownership evals) (avg_black_ownership d)) \<rparr>) n)"
  using assms by (simp add: Update_def Let_def WelfordDelta_value update_ownership_value set_members_def)

text \<open>The Welford sum of squares never becomes negative.\<close>

lemma welford_product_nonneg:
  fixes e a :: real and v :: int
  assumes "0 < v"
  shows "0 \<le> (e - a / real_of_int v) * (e - (a + e) / (real_of_int v + 1))"
proof -
  let ?v = "real_of_int v"
  have v: "0 < ?v" using assms by simp
  have v1: "?v + 1 \<noteq> 0" using v by linarith
  have l: "e - (a + e) / (?v + 1) = (e * ?v - a) / (?v + 1)"
    using v1 by (simp add: field_simps)
  have "e - a / ?v = (e * ?v - a) / ?v"
    using v by (simp add: field_simps)
  then have r: "(e - a / ?v) * (?v / (?v + 1)) = (e * ?v - a) / (?v + 1)"
    using v by simp
  have "e - (a + e) / (?v + 1) = (e - a / ?v) * (?v / (?v + 1))"
    by (simp only: l r)
  then have "(e - a / ?v) * (e - (a + e) / (?v + 1)) = (e - a / ?v) * (e - a / ?v) * (?v / (?v + 1))"
    by simp
  moreover have "0 \<le> (e - a / ?v) * (e - a / ?v) * (?v / (?v + 1))"
    using v by (intro mult_nonneg_nonneg zero_le_square divide_nonneg_nonneg) simp_all
  ultimately show ?thesis by simp
qed

lemma Update_squared_eval_diff_nonneg:
  assumes "0 \<le> visits (members n)" and "0 \<le> squared_eval_diff (members n)"
    and "Update evals n = Inr n'"
  shows "0 \<le> squared_eval_diff (members n')"
proof (cases "0 < visits (members n)")
  case True
  from welford_product_nonneg [OF True]
  show ?thesis
    using assms True by (auto simp: Update_value)
next
  case False
  then show ?thesis
    using assms by (auto simp: Update_value)
qed








subsection \<open>The t-quantile table, the readers and the lower confidence bound\<close>

lemma fdiv_Inr [simp]: "b \<noteq> 0 \<Longrightarrow> fdiv a b = Inr (a / b)"
  by (simp add: fdiv_def)

lemma fsqrt_Inr [simp]: "0 \<le> x \<Longrightarrow> fsqrt x = Inr (sqrt x)"
  by (simp add: fsqrt_def)

lemma fsqrt_Inl [simp]: "x < 0 \<Longrightarrow> fsqrt x = Inl DomainError"
  by (simp add: fsqrt_def)











lemma GetLcb_negative_variance:
  assumes "GetVisits n > 1" and "squared_eval_diff (members n) < 0"
  shows "GetLcb tbl c n = Inl DomainError"
proof -
  have v: "real_of_int (GetVisits n) \<noteq> 0" "real_of_int (GetVisits n - 1) \<noteq> 0"
    "0 < real_of_int (GetVisits n)" "0 < real_of_int (GetVisits n - 1)"
    using assms(1) by simp_all
  have "squared_eval_diff (members n) / real_of_int (GetVisits n - 1) < 0"
    using assms(2) v(4) by (rule divide_neg_pos)
  then have nn: "squared_eval_diff (members n) / real_of_int (GetVisits n - 1)
                  / real_of_int (GetVisits n) < 0"
    using v(3) by (rule divide_neg_pos)
  have wl: "GetWL c False n = Inr (if c = kBlack then accumulated_black_wl (members n) / real_of_int (GetVisits n)
           else 1 - accumulated_black_wl (members n) / real_of_int (GetVisits n))"
    using v(1) by (simp add: GetWL_def Let_def)
  have var: "GetLcbVariance 1 (GetVisits n) n =
      Inr (squared_eval_diff (members n) / real_of_int (GetVisits n - 1))"
    using assms(1) v(2) by (simp add: GetLcbVariance_def del: of_int_diff)
  show ?thesis
    using assms(1) v(1) nn
    by (simp add: GetLcb_def Let_def wl var del: of_int_diff)
qed

lemma fdiv_zero [simp]: "fdiv a 0 = Inl DivisionByZero"
  by (simp add: fdiv_def)

text \<open>
  Claim C7. With virtual loss enabled \<open>GetWL\<close> divides by \<open>visits + 3 * running_threads\<close>;
  for White, and for White only, \<open>3 * running_threads\<close> is first added to the accumulated
  win-loss. When that divisor is zero the result is undefined. With virtual loss disabled
  or no running thread, and a visited node, Black reads \<open>accumulated_black_wl / visits\<close>
  and White reads one minus it.
\<close>

theorem GetWL_virtual_loss:
  "(GetVisits n + 3 * running_threads (members n) \<noteq> 0 \<longrightarrow>
      GetWL kBlack True n =
        Inr (accumulated_black_wl (members n)
               / real_of_int (GetVisits n + 3 * running_threads (members n))) \<and>
      GetWL kWhite True n =
        Inr (1 - (accumulated_black_wl (members n) + real_of_int (3 * running_threads (members n)))
                   / real_of_int (GetVisits n + 3 * running_threads (members n))) \<and>
      (c \<noteq> kBlack \<and> c \<noteq> kWhite \<longrightarrow>
         GetWL c True n =
           Inr (1 - accumulated_black_wl (members n)
                      / real_of_int (GetVisits n + 3 * running_threads (members n))))) \<and>
   (GetVisits n + 3 * running_threads (members n) = 0 \<longrightarrow> GetWL c True n = Inl DivisionByZero) \<and>
   (GetVisits n \<noteq> 0 \<and> (\<not> use_virtual_loss \<or> running_threads (members n) = 0) \<longrightarrow>
      GetWL kBlack use_virtual_loss n =
        Inr (accumulated_black_wl (members n) / real_of_int (GetVisits n)) \<and>
      GetWL kWhite use_virtual_loss n =
        Inr (1 - accumulated_black_wl (members n) / real_of_int (GetVisits n)))"
  by (auto simp: GetWL_def GetVirtualLoss_def VIRTUAL_LOSS_COUNT_def Let_def fdiv_def
           simp del: of_int_add of_int_mult)

text \<open>
  Claim C9. \<open>GetFinalScore\<close> and \<open>GetDraw\<close> divide by the visit count without a guard: on
  a node without visits both are a division by zero, on any other node they are the
  accumulated value over the visits (negated for a colour other than Black); a new node
  has no visits, and inflating an edge makes a new node.
\<close>

theorem GetFinalScore_GetDraw_unguarded:
  "(GetVisits n = 0 \<longrightarrow>
      GetFinalScore c n = Inl DivisionByZero \<and> GetDraw n = Inl DivisionByZero) \<and>
   (GetVisits n \<noteq> 0 \<longrightarrow>
      GetFinalScore kBlack n = Inr (accumulated_black_fs (members n) / real_of_int (GetVisits n)) \<and>
      (c \<noteq> kBlack \<longrightarrow>
         GetFinalScore c n = Inr (0 - accumulated_black_fs (members n) / real_of_int (GetVisits n))) \<and>
      GetDraw n = Inr (accumulated_draw (members n) / real_of_int (GetVisits n))) \<and>
   GetVisits (NewNode k vtx pol) = 0 \<and>
   Edge_Get (Inflate env (Edge vtx pol None)) = Some (NewNode (kNumIntersections env) vtx pol)"
  by (auto simp: GetFinalScore_def GetDraw_def GetVisits_def NewNode_def Inflate_def
        Edge_Inflate_def)

text \<open>The three readings of a node with two visits and one running thread, and of a new
  node.\<close>

theorem GetWL_virtual_loss_witness:
  "GetVisits node_example + 3 * running_threads (members node_example) \<noteq> 0 \<and>
   GetWL kBlack True node_example = Inr (1 / 5) \<and>
   GetWL kWhite True node_example = Inr (1 - 4 / 5) \<and>
   kEmpty \<noteq> kBlack \<and> kEmpty \<noteq> kWhite \<and>
   GetWL kEmpty True node_example = Inr (1 - 1 / 5) \<and>
   GetVisits (NewNode 1 0 1) + 3 * running_threads (members (NewNode 1 0 1)) = 0 \<and>
   GetWL kWhite True (NewNode 1 0 1) = Inl DivisionByZero \<and>
   GetVisits node_example \<noteq> 0 \<and>
   GetWL kBlack False node_example = Inr (1 / 2) \<and>
   GetWL kWhite False node_example = Inr (1 - 1 / 2)"
proof -
  have a: "GetVisits node_example + 3 * running_threads (members node_example) \<noteq> 0"
    and b: "GetVisits (NewNode 1 0 1) + 3 * running_threads (members (NewNode 1 0 1)) = 0"
    and c: "GetVisits node_example \<noteq> 0"
    by (simp_all add: GetVisits_def node_example_def NewNode_def)
  show ?thesis
    using a b c
      GetWL_virtual_loss [of node_example kEmpty False]
      GetWL_virtual_loss [of "NewNode 1 0 1" kWhite False]
    by (simp add: GetVisits_def node_example_def NewNode_def)
qed

text \<open>A new node and a node with two visits.\<close>

theorem GetFinalScore_GetDraw_unguarded_witness:
  "GetVisits (NewNode 1 0 1) = 0 \<and>
   GetFinalScore kWhite (NewNode 1 0 1) = Inl DivisionByZero \<and>
   GetDraw (NewNode 1 0 1) = Inl DivisionByZero \<and>
   GetVisits node_example \<noteq> 0 \<and>
   GetFinalScore kBlack node_example = Inr (4 / 2) \<and>
   kWhite \<noteq> kBlack \<and>
   GetFinalScore kWhite node_example = Inr (0 - 4 / 2) \<and>
   GetDraw node_example = Inr (0 / 2) \<and>
   Edge_Get (Inflate env_example (Edge 0 1 None))
     = Some (NewNode (kNumIntersections env_example) 0 1)"
proof -
  have a: "GetVisits (NewNode 1 0 1) = 0" and b: "GetVisits node_example \<noteq> 0"
    by (simp_all add: GetVisits_def node_example_def NewNode_def)
  show ?thesis
    using a b
      GetFinalScore_GetDraw_unguarded [where n = "NewNode 1 0 1" and c = kWhite and k = 1
        and vtx = 0 and pol = 1 and env = env_example]
      GetFinalScore_GetDraw_unguarded [where n = node_example and c = kWhite and k = 1
        and vtx = 0 and pol = 1 and env = env_example]
    by (simp add: GetVisits_def node_example_def NewNode_def)
qed



subsection \<open>Expansion\<close>

lemma bindE_eq_Inr: "bindE m f = Inr y \<longleftrightarrow> (\<exists>x. m = Inr x \<and> f x = Inr y)"
  by (cases m) simp_all

lemma AcquireExpanding_Initial:
  "expand_state (members n) = kInitial \<Longrightarrow>
   AcquireExpanding n = (True, set_members (\<lambda>d. d\<lparr>expand_state := kExpanding\<rparr>) n)"
  by (simp add: AcquireExpanding_def)

lemma AcquireExpanding_other:
  "expand_state (members n) \<noteq> kInitial \<Longrightarrow> AcquireExpanding n = (False, n)"
  by (simp add: AcquireExpanding_def)

lemma ExpandChildren_refused:
  assumes "GetPasses env state < 2"
    and "HaveChildren n \<or> expand_state (members n) \<noteq> kInitial"
  shows "ExpandChildren env param state node_evals config is_root n = Inr (False, n, node_evals)"
  using assms by (auto simp: ExpandChildren_def AcquireExpanding_def)

lemma ExpandDone_Inr: "ExpandDone n = Inr n' \<Longrightarrow> expand_state (members n') = kExpanded \<and>
   children n' = children n \<and> n' = set_members (\<lambda>d. d\<lparr>expand_state := kExpanded\<rparr>) n"
  by (auto simp: ExpandDone_def Let_def split: if_splits)

lemma LinkNodeList_Inr: "LinkNodeList nodelist n = Inr n' \<Longrightarrow>
   children n' = children n @ map (\<lambda>(pol, vtx). Edge (to_uint16 vtx) pol None) (rev (sort nodelist))
   \<and> members n' = members n"
  by (auto simp: LinkNodeList_def Let_def set_children_def split: if_splits)

text \<open>What a successful expansion did.\<close>

lemma ExpandChildren_success:
  assumes "ExpandChildren env param state node_evals config is_root n = Inr (True, n', ev')"
  shows "\<exists>raw cands. expansion_netlist env param state is_root = Inr raw \<and>
     collect_candidates env param config state (GetToMove env state) raw = Inr cands \<and>
     children n' = children n @ map (\<lambda>(pol, vtx). Edge (to_uint16 vtx) pol None)
        (rev (sort (normalize_policy (add_pass env state raw cands)))) \<and>
     expand_state (members n') = kExpanded \<and> expand_state (members n) = kInitial \<and>
     \<not> HaveChildren n \<and> GetPasses env state < 2"
proof -
  have p: "GetPasses env state < 2" and h: "\<not> HaveChildren n"
    using assms by (auto simp: ExpandChildren_def split: if_splits)
  have i: "expand_state (members n) = kInitial"
    using assms p h by (auto simp: ExpandChildren_def AcquireExpanding_def split: if_splits)
  let ?n2 = "set_members (\<lambda>d. d\<lparr>color := GetToMove env state\<rparr>)
               (set_members (\<lambda>d. d\<lparr>expand_state := kExpanding\<rparr>) n)"
  from assms p h i obtain raw where raw: "expansion_netlist env param state is_root = Inr raw"
    and rest: "(case ApplyNetOutput env param state raw node_evals (GetToMove env state) ?n2 of
                    (n3, evals') \<Rightarrow>
                      bindE (collect_candidates env param config state (GetToMove env state) raw)
                        (\<lambda>cands.
                           bindE (LinkNodeList
                                    (normalize_policy (add_pass env state raw cands)) n3)
                             (\<lambda>n4. bindE (ExpandDone n4)
                                (\<lambda>n5. Inr (True, n5, evals'))))) = Inr (True, n', ev')"
    by (auto simp: ExpandChildren_def AcquireExpanding_def Let_def bindE_eq_Inr)
  obtain n3 evals' where ap: "ApplyNetOutput env param state raw node_evals (GetToMove env state) ?n2 = (n3, evals')"
    by (cases "ApplyNetOutput env param state raw node_evals (GetToMove env state) ?n2")
  have c3: "children n3 = children n"
    using ap by (auto simp: ApplyNetOutput_def Let_def)
  from rest ap obtain cands n4 where
    cands: "collect_candidates env param config state (GetToMove env state) raw = Inr cands"
    and n4: "LinkNodeList (normalize_policy (add_pass env state raw cands)) n3 = Inr n4"
    and n5: "ExpandDone n4 = Inr n'"
    by (auto simp: bindE_eq_Inr)
  have ch: "children n' = children n @ map (\<lambda>(pol, vtx). Edge (to_uint16 vtx) pol None)
        (rev (sort (normalize_policy (add_pass env state raw cands))))"
    using LinkNodeList_Inr [OF n4] ExpandDone_Inr [OF n5] c3 by simp
  have ex: "expand_state (members n') = kExpanded"
    using ExpandDone_Inr [OF n5] by simp
  show ?thesis
    using raw cands ch ex p h i by blast
qed





lemma candidate_step_nodelist:
  assumes "candidate_step env param config state c raw idx (nodelist, legal, hashes)
             = Inr (nodelist', legal', hashes')"
  shows "nodelist' = nodelist \<or>
     nodelist' = nodelist @ [(probabilities raw idx,
        state_GetVertex env state (C_mod (int idx) (GetBoardSize env state))
          (C_div (int idx) (GetBoardSize env state)))]"
  using assms unfolding candidate_step_def Let_def
  by (auto split: if_splits)

lemma candidate_step_vertices:
  assumes "candidate_step env param config state c raw idx s = Inr s'"
    and "snd ` set (fst s) \<subseteq> V"
    and "state_GetVertex env state (C_mod (int idx) (GetBoardSize env state))
           (C_div (int idx) (GetBoardSize env state)) \<in> V"
  shows "snd ` set (fst s') \<subseteq> V"
proof -
  obtain nodelist legal hashes where s: "s = (nodelist, legal, hashes)"
    by (cases s)
  obtain nodelist' legal' hashes' where s': "s' = (nodelist', legal', hashes')"
    by (cases s')
  from candidate_step_nodelist [OF assms(1) [unfolded s s']]
  show ?thesis
  proof
    assume "nodelist' = nodelist"
    then show ?thesis using assms(2) s s' by simp
  next
    assume "nodelist' = nodelist @ [(probabilities raw idx,
        state_GetVertex env state (C_mod (int idx) (GetBoardSize env state))
          (C_div (int idx) (GetBoardSize env state)))]"
    then show ?thesis using assms(2,3) s s' by auto
  qed
qed

lemma candidates_loop_vertices:
  assumes "candidates_loop env param config state c raw idxs s = Inr s'"
    and "snd ` set (fst s) \<subseteq> V"
    and "\<forall>idx \<in> set idxs.
           state_GetVertex env state (C_mod (int idx) (GetBoardSize env state))
             (C_div (int idx) (GetBoardSize env state)) \<in> V"
  shows "snd ` set (fst s') \<subseteq> V"
  using assms
proof (induction idxs arbitrary: s)
  case Nil
  then show ?case by simp
next
  case (Cons idx rest)
  from Cons.prems(1) obtain s1 where
    s1: "candidate_step env param config state c raw idx s = Inr s1"
    and r: "candidates_loop env param config state c raw rest s1 = Inr s'"
    by (auto simp: bindE_eq_Inr)
  have "snd ` set (fst s1) \<subseteq> V"
    using candidate_step_vertices [OF s1 Cons.prems(2)] Cons.prems(3) by simp
  then show ?case
    using Cons.IH [OF r] Cons.prems(3) by simp
qed



lemma collect_candidates_vertices:
  assumes "collect_candidates env param config state c raw = Inr (nodelist, legal)"
  shows "snd ` set nodelist \<subseteq>
     (\<lambda>idx. state_GetVertex env state (C_mod (int idx) (GetBoardSize env state))
               (C_div (int idx) (GetBoardSize env state)))
       ` {idx. idx < nat (GetNumIntersections env state)}"
proof -
  from assms obtain hashes where
    "candidates_loop env param config state c raw [0..<nat (GetNumIntersections env state)]
       ([], 0, []) = Inr (nodelist, legal, hashes)"
    by (auto simp: collect_candidates_def bindE_eq_Inr)
  from candidates_loop_vertices [OF this] show ?thesis by simp
qed







lemma normalize_policy_vertices:
  "map snd (normalize_policy (nodelist, legal)) = map snd nodelist"
  by (auto simp: normalize_policy_def)

lemma C_div_nonneg: "0 \<le> a \<Longrightarrow> C_div a 4 = a div 4"
  by (simp add: C_div_def)

lemma le_C_div_real:
  assumes "0 \<le> N"
  shows "int k \<le> C_div (3 * N) 4 \<longleftrightarrow> real k \<le> 3 * real_of_int N / 4"
proof -
  have "int k \<le> (3 * N) div 4 \<longleftrightarrow> 4 * int k \<le> 3 * N"
    by presburger
  also have "\<dots> \<longleftrightarrow> real_of_int (4 * int k) \<le> real_of_int (3 * N)"
    by (simp only: of_int_le_iff)
  also have "\<dots> \<longleftrightarrow> real k \<le> 3 * real_of_int N / 4"
    by (simp add: mult.commute)
  finally show ?thesis
    using assms by (simp add: C_div_nonneg)
qed

lemma add_pass_vertices:
  "snd ` set (fst (add_pass env state raw (nodelist, legal))) =
     (if \<not> int (length nodelist) > C_div (3 * GetNumIntersections env state) 4 \<or> nodelist = []
      then insert (kPass env) (snd ` set nodelist) else snd ` set nodelist)"
  by (auto simp: add_pass_def Let_def)

lemma normalize_policy_vertex_set:
  "snd ` set (normalize_policy s) = snd ` set (fst s)"
proof -
  obtain nodelist legal where s: "s = (nodelist, legal)" by (cases s)
  have "set (map snd (normalize_policy (nodelist, legal))) = set (map snd nodelist)"
    by (simp only: normalize_policy_vertices)
  then show ?thesis by (simp add: s)
qed

lemma edge_vertices:
  "Edge_GetVertex ` set (map (\<lambda>(pol, vtx). Edge (to_uint16 vtx) pol None) xs)
     = to_uint16 ` snd ` set xs"
  by (induction xs) auto

text \<open>
  Claim C5. After a successful expansion of a node without children, on a board whose
  intersections are not the pass vertex, a pass child exists exactly when the list of
  non-pass candidates is empty or not longer than \<open>3 * N div 4\<close>; for \<open>N \<ge> 0\<close> that is
  exactly when its length is at most \<open>3 * N / 4\<close>, so with more candidates there is no
  pass child, and with no candidate there is one.
\<close>

theorem ExpandChildren_pass_child:
  assumes "ExpandChildren env param state node_evals config is_root n = Inr (True, n', ev')"
    and "children n = []"
    and "\<forall>idx < nat (GetNumIntersections env state).
           to_uint16 (state_GetVertex env state (C_mod (int idx) (GetBoardSize env state))
                        (C_div (int idx) (GetBoardSize env state)))
             \<noteq> to_uint16 (kPass env)"
  shows "\<exists>raw nodelist legal.
     expansion_netlist env param state is_root = Inr raw \<and>
     collect_candidates env param config state (GetToMove env state) raw
       = Inr (nodelist, legal) \<and>
     (to_uint16 (kPass env) \<in> Edge_GetVertex ` set (children n') \<longleftrightarrow>
        nodelist = [] \<or> int (length nodelist) \<le> C_div (3 * GetNumIntersections env state) 4) \<and>
     (nodelist = [] \<longrightarrow> to_uint16 (kPass env) \<in> Edge_GetVertex ` set (children n')) \<and>
     (0 \<le> GetNumIntersections env state \<longrightarrow>
        (to_uint16 (kPass env) \<in> Edge_GetVertex ` set (children n') \<longleftrightarrow>
           real (length nodelist) \<le> 3 * real_of_int (GetNumIntersections env state) / 4))"
proof -
  from ExpandChildren_success [OF assms(1)] obtain raw cands where
    raw: "expansion_netlist env param state is_root = Inr raw"
    and cands: "collect_candidates env param config state (GetToMove env state) raw = Inr cands"
    and ch: "children n' = children n @ map (\<lambda>(pol, vtx). Edge (to_uint16 vtx) pol None)
        (rev (sort (normalize_policy (add_pass env state raw cands))))"
    by blast
  obtain nodelist legal where c: "cands = (nodelist, legal)" by (cases cands)
  let ?N = "GetNumIntersections env state"
  let ?pass = "to_uint16 (kPass env)"
  have vs: "snd ` set nodelist \<subseteq>
     (\<lambda>idx. state_GetVertex env state (C_mod (int idx) (GetBoardSize env state))
               (C_div (int idx) (GetBoardSize env state)))
       ` {idx. idx < nat (GetNumIntersections env state)}"
    using collect_candidates_vertices [OF cands [unfolded c]] .
  have nopass: "?pass \<notin> to_uint16 ` snd ` set nodelist"
  proof
    assume "?pass \<in> to_uint16 ` snd ` set nodelist"
    then obtain v where v: "v \<in> snd ` set nodelist" and eq: "?pass = to_uint16 v"
      by blast
    from v vs obtain idx where idx: "idx < nat (GetNumIntersections env state)"
      and "v = state_GetVertex env state (C_mod (int idx) (GetBoardSize env state))
                 (C_div (int idx) (GetBoardSize env state))"
      by blast
    then have "to_uint16 (state_GetVertex env state (C_mod (int idx) (GetBoardSize env state))
                 (C_div (int idx) (GetBoardSize env state))) = ?pass"
      using eq by simp
    moreover have "to_uint16 (state_GetVertex env state (C_mod (int idx) (GetBoardSize env state))
                 (C_div (int idx) (GetBoardSize env state))) \<noteq> ?pass"
      using assms(3) idx by blast
    ultimately show False
      by blast
  qed
  have "Edge_GetVertex ` set (children n') =
      to_uint16 ` snd ` set (fst (add_pass env state raw (nodelist, legal)))"
    unfolding ch assms(2) c
    by (simp only: append_Nil edge_vertices set_rev set_sort normalize_policy_vertex_set)
  then have iff: "?pass \<in> Edge_GetVertex ` set (children n') \<longleftrightarrow>
        nodelist = [] \<or> int (length nodelist) \<le> C_div (3 * ?N) 4"
    using nopass by (auto simp: add_pass_vertices)
  have real: "0 \<le> ?N \<Longrightarrow> (nodelist = [] \<or> int (length nodelist) \<le> C_div (3 * ?N) 4)
      \<longleftrightarrow> real (length nodelist) \<le> 3 * real_of_int ?N / 4"
    using le_C_div_real [of ?N "length nodelist"] by auto
  show ?thesis
    using raw cands [unfolded c] iff real by blast
qed


text \<open>
  Claim C1. With fewer than two passes on the board, \<open>ExpandChildren\<close> on a node that has
  children or whose expand state is not Initial returns false and the node and the
  evaluation as they were. \<open>AcquireExpanding\<close> returns true and moves the state to
  Expanding exactly when the state was Initial, and otherwise returns false and the node
  unchanged. After a successful expansion every further expansion of the result is
  refused.
\<close>

theorem ExpandChildren_at_most_once:
  "(GetPasses env state < 2 \<and> (HaveChildren n \<or> expand_state (members n) \<noteq> kInitial) \<longrightarrow>
      ExpandChildren env param state node_evals config is_root n = Inr (False, n, node_evals)) \<and>
   (expand_state (members n) = kInitial \<longrightarrow>
      AcquireExpanding n = (True, set_members (\<lambda>d. d\<lparr>expand_state := kExpanding\<rparr>) n)) \<and>
   (expand_state (members n) \<noteq> kInitial \<longrightarrow> AcquireExpanding n = (False, n)) \<and>
   (ExpandChildren env param state node_evals config is_root n = Inr (True, n', ev') \<and>
    GetPasses env state2 < 2 \<longrightarrow>
      ExpandChildren env param2 state2 ev2 config2 is_root2 n' = Inr (False, n', ev2))"
proof -
  have "ExpandChildren env param2 state2 ev2 config2 is_root2 n' = Inr (False, n', ev2)"
    if "ExpandChildren env param state node_evals config is_root n = Inr (True, n', ev')"
      and "GetPasses env state2 < 2"
  proof -
    have "expand_state (members n') = kExpanded"
      using ExpandChildren_success [OF that(1)] by blast
    then show ?thesis
      using that(2) by (intro ExpandChildren_refused) simp_all
  qed
  then show ?thesis
    using ExpandChildren_refused [of env state n param node_evals config is_root]
      AcquireExpanding_Initial [of n] AcquireExpanding_other [of n]
    by blast
qed

text \<open>The expansions of the example root.\<close>

lemma expand_example_symm:
  "ExpandChildren env_example param_example state_example evals_zero config_example True
     root_example = Inr (True, expanded_example, evals_expanded)"
  by code_simp

lemma expand_example_no_symm:
  "ExpandChildren env_example param_no_symm state_example evals_zero config_example True
     root_example = Inr (True, expanded_no_symm, evals_expanded)"
  by code_simp


lemma root_example_children: "children root_example = []"
  by (simp add: root_example_def NewNode_def)

lemma example_vertices_not_pass:
  "\<forall>idx < nat (GetNumIntersections env_example state_example).
     to_uint16 (state_GetVertex env_example state_example
                  (C_mod (int idx) (GetBoardSize env_example state_example))
                  (C_div (int idx) (GetBoardSize env_example state_example)))
       \<noteq> to_uint16 (kPass env_example)"
proof -
  have "idx < 4 \<longleftrightarrow> idx = 0 \<or> idx = 1 \<or> idx = 2 \<or> idx = 3" for idx :: nat
    by auto
  then show ?thesis
    by (auto simp: GetNumIntersections_def GetBoardSize_def state_GetVertex_def env_example_def
          to_uint16_def C_mod_def C_div_def)
qed



text \<open>One candidate of four intersections: pass is a child. Four candidates: it is not.\<close>

theorem ExpandChildren_pass_child_witness:
  "ExpandChildren env_example param_example state_example evals_zero config_example True
     root_example = Inr (True, expanded_example, evals_expanded) \<and>
   children root_example = [] \<and>
   collect_candidates env_example param_example config_example state_example
     (GetToMove env_example state_example) result_example = Inr ([(1 / 5, 5)], 4 / 5) \<and>
   to_uint16 (kPass env_example) \<in> Edge_GetVertex ` set (children expanded_example) \<and>
   ExpandChildren env_example param_no_symm state_example evals_zero config_example True
     root_example = Inr (True, expanded_no_symm, evals_expanded) \<and>
   collect_candidates env_example param_no_symm config_example state_example
     (GetToMove env_example state_example) result_example
       = Inr ([(1 / 5, 5), (1 / 5, 6), (1 / 5, 9), (1 / 5, 10)], 4 / 5) \<and>
   to_uint16 (kPass env_example) \<notin> Edge_GetVertex ` set (children expanded_no_symm)"
proof -
  have r1: "expansion_netlist env_example param_example state_example True = Inr result_example"
    and r2: "expansion_netlist env_example param_no_symm state_example True = Inr result_example"
    by (simp_all add: expansion_netlist_def param_example_def param_no_symm_def env_example_def)
  have c1: "collect_candidates env_example param_example config_example state_example
     (GetToMove env_example state_example) result_example = Inr ([(1 / 5, 5)], 4 / 5)"
    by code_simp
  have c2: "collect_candidates env_example param_no_symm config_example state_example
     (GetToMove env_example state_example) result_example
       = Inr ([(1 / 5, 5), (1 / 5, 6), (1 / 5, 9), (1 / 5, 10)], 4 / 5)"
    by code_simp
  have n: "GetNumIntersections env_example state_example = 4"
    by (simp add: GetNumIntersections_def env_example_def)
  have "to_uint16 (kPass env_example) \<in> Edge_GetVertex ` set (children expanded_example)"
    using ExpandChildren_pass_child
            [OF expand_example_symm root_example_children example_vertices_not_pass]
      r1 c1 n
    by (auto simp: C_div_def)
  moreover have
    "to_uint16 (kPass env_example) \<notin> Edge_GetVertex ` set (children expanded_no_symm)"
    using ExpandChildren_pass_child
            [OF expand_example_no_symm root_example_children example_vertices_not_pass]
      r2 c2 n
    by (auto simp: C_div_def)
  ultimately show ?thesis
    using expand_example_symm expand_example_no_symm root_example_children c1 c2 by simp
qed

text \<open>An expanded node refuses; a new node is acquired once; the expansion of the example
  root succeeds and its result refuses.\<close>

theorem ExpandChildren_at_most_once_witness:
  "GetPasses env_example state_example < 2 \<and> HaveChildren node_example \<and>
   ExpandChildren env_example param_example state_example evals_zero config_example True
     node_example = Inr (False, node_example, evals_zero) \<and>
   expand_state (members root_example) = kInitial \<and>
   AcquireExpanding root_example
     = (True, set_members (\<lambda>d. d\<lparr>expand_state := kExpanding\<rparr>) root_example) \<and>
   expand_state (members node_example) \<noteq> kInitial \<and>
   AcquireExpanding node_example = (False, node_example) \<and>
   ExpandChildren env_example param_example state_example evals_zero config_example True
     root_example = Inr (True, expanded_example, evals_expanded) \<and>
   ExpandChildren env_example param_no_symm state_example evals_expanded config_example False
     expanded_example = Inr (False, expanded_example, evals_expanded)"
proof -
  have a: "GetPasses env_example state_example < 2"
    by (simp add: GetPasses_def env_example_def state_example_def board_example_def)
  have b: "HaveChildren node_example" "expand_state (members node_example) \<noteq> kInitial"
    by (simp_all add: HaveChildren_def node_example_def)
  have c: "expand_state (members root_example) = kInitial"
    by (simp add: root_example_def NewNode_def)
  show ?thesis
    using a b c expand_example_symm
      ExpandChildren_at_most_once [where env = env_example and state = state_example
        and n = node_example and param = param_example and node_evals = evals_zero
        and config = config_example and is_root = True]
      ExpandChildren_at_most_once [where env = env_example and state = state_example
        and n = root_example and param = param_example and node_evals = evals_zero
        and config = config_example and is_root = True and n' = expanded_example
        and ev' = evals_expanded and ?state2.0 = state_example
        and ?param2.0 = param_no_symm and ?ev2.0 = evals_expanded
        and ?config2.0 = config_example and ?is_root2.0 = False]
    by simp
qed

subsection \<open>Superko removal at the root\<close>

lemma resize_Inr: "0 \<le> k \<Longrightarrow> \<exists>ys. resize fill k xs = Inr ys"
  by (simp add: resize_def)

lemma PlayMove_total:
  assumes "ko_hash_history state \<noteq> []"
    and "\<forall>b. 0 \<le> board_GetMoveNumber env b"
  shows "\<exists>ok fork_state. PlayMove env state vtx = Inr (ok, fork_state) \<and>
           ko_hash_history fork_state \<noteq> []"
proof -
  let ?c = "GetToMove env state"
  let ?st1 = "state\<lparr>board := board_PlayMoveAssumeLegal env (board state) vtx ?c\<rparr>"
  have mn: "0 \<le> GetMoveNumber env ?st1"
    using assms(2) by (simp add: GetMoveNumber_def)
  show ?thesis
    using assms(1) mn
    by (auto simp: PlayMove_def PlayMove_color_def Let_def resize_def)
qed

lemma IsSuperko_total:
  assumes "ko_hash_history st \<noteq> []"
  shows "\<exists>b. IsSuperko env st = Inr b"
  using assms by (cases "rev (ko_hash_history st)") (auto simp: IsSuperko_def)

lemma mark_superko_value:
  assumes "ko_hash_history state \<noteq> []"
    and "\<forall>b. 0 \<le> board_GetMoveNumber env b"
    and "Edge_Get child = Some nd"
  shows "mark_superko env state child =
     Inr (if leads_to_superko env state (Edge_GetVertex child)
          then Edge (Edge_GetVertex child) (Edge_GetPolicy child) (Some (Invalidate nd))
          else child)"
proof -
  obtain ok fork_state where pm: "PlayMove env state (Edge_GetVertex child) = Inr (ok, fork_state)"
    and h: "ko_hash_history fork_state \<noteq> []"
    using PlayMove_total [OF assms(1,2)] by blast
  obtain b where sk: "IsSuperko env fork_state = Inr b"
    using IsSuperko_total [OF h] by blast
  show ?thesis
    using pm sk assms(3) by (simp add: mark_superko_def leads_to_superko_def Let_def)
qed

lemma IsValid_Invalidate: "\<not> IsValid (Invalidate nd)"
  by (simp add: Invalidate_def IsValid_def)

lemma mapE_mark_superko:
  assumes "ko_hash_history state \<noteq> []"
    and "\<forall>b. 0 \<le> board_GetMoveNumber env b"
    and "\<forall>e \<in> set es. \<exists>nd. Edge_Get e = Some nd \<and> IsValid nd"
  shows "mapE (mark_superko env state) es =
     Inr (map (\<lambda>e. if leads_to_superko env state (Edge_GetVertex e)
                    then Edge (Edge_GetVertex e) (Edge_GetPolicy e)
                           (Some (Invalidate (the (Edge_Get e))))
                    else e) es)"
  using assms(3)
proof (induction es)
  case Nil
  then show ?case by simp
next
  case (Cons e es)
  obtain nd where nd: "Edge_Get e = Some nd" using Cons.prems by auto
  have "mapE (mark_superko env state) es =
     Inr (map (\<lambda>e. if leads_to_superko env state (Edge_GetVertex e)
                    then Edge (Edge_GetVertex e) (Edge_GetPolicy e)
                           (Some (Invalidate (the (Edge_Get e))))
                    else e) es)"
    using Cons by simp
  then show ?case
    using mark_superko_value [OF assms(1,2) nd] nd by simp
qed

lemma remove_invalid_marked:
  assumes "\<forall>e \<in> set es. \<exists>nd. Edge_Get e = Some nd \<and> IsValid nd"
  shows "remove_invalid (map (\<lambda>e. if P (Edge_GetVertex e)
                    then Edge (Edge_GetVertex e) (Edge_GetPolicy e)
                           (Some (Invalidate (the (Edge_Get e))))
                    else e) es) = Inr (filter (\<lambda>e. \<not> P (Edge_GetVertex e)) es)"
  using assms
proof (induction es)
  case Nil
  then show ?case by simp
next
  case (Cons e es)
  obtain nd where nd: "Edge_Get e = Some nd" "IsValid nd" using Cons.prems by auto
  have ih: "remove_invalid (map (\<lambda>e. if P (Edge_GetVertex e)
                    then Edge (Edge_GetVertex e) (Edge_GetPolicy e)
                           (Some (Invalidate (the (Edge_Get e))))
                    else e) es) = Inr (filter (\<lambda>e. \<not> P (Edge_GetVertex e)) es)"
    using Cons by simp
  show ?case
    using nd ih by (simp add: IsValid_Invalidate)
qed

text \<open>
  Claim C8. On a root whose children are all inflated and valid, with a non-empty ko-hash
  history and move numbers that are not negative, the first loop of \<open>KillRootSuperkos\<close>
  invalidates the node of exactly the children whose move is not pass and leads to a
  repeated position, and the call returns the root with exactly those children removed:
  the others stay, in their order, and the number of children drops by the number of
  such moves.
\<close>

theorem KillRootSuperkos_removes:
  assumes "\<forall>e \<in> set (children n). \<exists>nd. Edge_Get e = Some nd \<and> IsValid nd"
    and "ko_hash_history state \<noteq> []"
    and "\<forall>b. 0 \<le> board_GetMoveNumber env b"
  shows "\<exists>marked n'.
     mapE (mark_superko env state) (children n) = Inr marked \<and>
     length marked = length (children n) \<and>
     (\<forall>i < length marked.
        Edge_GetVertex (marked ! i) = Edge_GetVertex (children n ! i) \<and>
        (\<exists>nd. Edge_Get (marked ! i) = Some nd \<and>
           (\<not> IsValid nd \<longleftrightarrow> leads_to_superko env state (Edge_GetVertex (children n ! i))))) \<and>
     KillRootSuperkos env state n = Inr n' \<and>
     members n' = members n \<and>
     children n' =
       filter (\<lambda>e. \<not> leads_to_superko env state (Edge_GetVertex e)) (children n) \<and>
     int (length (children n')) =
       int (length (children n))
         - int (length (filter (\<lambda>e. leads_to_superko env state (Edge_GetVertex e))
                  (children n)))"
proof -
  let ?P = "leads_to_superko env state"
  let ?mark = "\<lambda>e. if ?P (Edge_GetVertex e)
                    then Edge (Edge_GetVertex e) (Edge_GetPolicy e)
                           (Some (Invalidate (the (Edge_Get e))))
                    else e"
  let ?marked = "map ?mark (children n)"
  let ?n' = "set_children (filter (\<lambda>e. \<not> ?P (Edge_GetVertex e)) (children n)) n"
  have m: "mapE (mark_superko env state) (children n) = Inr ?marked"
    using mapE_mark_superko [OF assms(2,3,1)] .
  have r: "remove_invalid ?marked = Inr (filter (\<lambda>e. \<not> ?P (Edge_GetVertex e)) (children n))"
    using remove_invalid_marked [OF assms(1)] .
  have k: "KillRootSuperkos env state n = Inr ?n'"
    by (simp add: KillRootSuperkos_def m r)
  have each: "Edge_GetVertex (?marked ! i) = Edge_GetVertex (children n ! i) \<and>
        (\<exists>nd. Edge_Get (?marked ! i) = Some nd \<and>
           (\<not> IsValid nd \<longleftrightarrow> ?P (Edge_GetVertex (children n ! i))))"
    if "i < length ?marked" for i
  proof -
    have i: "i < length (children n)" using that by simp
    then have "children n ! i \<in> set (children n)" by simp
    then obtain nd where nd: "Edge_Get (children n ! i) = Some nd" "IsValid nd"
      using assms(1) by blast
    show ?thesis
      using i nd by (simp add: IsValid_Invalidate)
  qed
  have len: "int (length (children ?n')) =
       int (length (children n))
         - int (length (filter (\<lambda>e. ?P (Edge_GetVertex e)) (children n)))"
    using sum_length_filter_compl [of "\<lambda>e. ?P (Edge_GetVertex e)" "children n"]
    by (simp add: set_children_def)
  have "length ?marked = length (children n)" by simp
  moreover have "members ?n' = members n" by (simp add: set_children_def)
  moreover have "children ?n' = filter (\<lambda>e. \<not> ?P (Edge_GetVertex e)) (children n)"
    by (simp add: set_children_def)
  ultimately show ?thesis
    using m k each len by blast
qed

text \<open>Of the children pass, 9 and 5 of the example root, the move at 9 repeats the position
  of the history; pass does too, and stays.\<close>

theorem KillRootSuperkos_removes_witness:
  "list_all (\<lambda>e. case Edge_Get e of None \<Rightarrow> False | Some nd \<Rightarrow> IsValid nd)
     (children root_superko) \<and>
   ko_hash_history state_superko \<noteq> [] \<and>
   (\<forall>b. 0 \<le> board_GetMoveNumber env_example b) \<and>
   leads_to_superko env_example state_superko 9 \<and>
   \<not> leads_to_superko env_example state_superko 5 \<and>
   \<not> leads_to_superko env_example state_superko 100 \<and>
   KillRootSuperkos env_example state_superko root_superko = Inr root_superko_killed \<and>
   int (length (children root_superko_killed)) = int (length (children root_superko)) - 1"
proof -
  have ch: "children root_superko =
      [Edge 100 (1 / 2) (Some (NewNode 4 100 (1 / 2))),
       Edge 9 (1 / 4) (Some (NewNode 4 9 (1 / 4))),
       Edge 5 (1 / 4) (Some (NewNode 4 5 (1 / 4)))]"
    by (simp add: root_superko_def InflateAllChildren_def Inflate_def Edge_Inflate_def
          set_children_def env_example_def)
  have mem: "members root_superko = expanded_members"
    by (simp add: root_superko_def InflateAllChildren_def set_children_def)
  have a: "\<forall>e \<in> set (children root_superko). \<exists>nd. Edge_Get e = Some nd \<and> IsValid nd"
    by (simp add: ch IsValid_def NewNode_def)
  have b: "ko_hash_history state_superko \<noteq> []"
    by (simp add: state_superko_def)
  have c: "\<forall>b. 0 \<le> board_GetMoveNumber env_example b"
    by (simp add: env_example_def)
  have s9: "leads_to_superko env_example state_superko 9"
    by code_simp
  have s5: "\<not> leads_to_superko env_example state_superko 5"
    by code_simp
  have s100: "\<not> leads_to_superko env_example state_superko 100"
    by code_simp
  from KillRootSuperkos_removes [OF a b c] obtain n' where
    k: "KillRootSuperkos env_example state_superko root_superko = Inr n'"
    and m: "members n' = members root_superko"
    and f: "children n' = filter (\<lambda>e. \<not> leads_to_superko env_example state_superko
                                          (Edge_GetVertex e)) (children root_superko)"
    by blast
  have "children n' = children root_superko_killed"
    using f s9 s5 s100 by (simp add: ch root_superko_killed_def)
  moreover have "members n' = members root_superko_killed"
    using m mem by (simp add: root_superko_killed_def)
  ultimately have "n' = root_superko_killed"
    by (simp add: Node.expand)
  then show ?thesis
    using k b c s9 s5 s100 by (simp add: ch root_superko_killed_def IsValid_def NewNode_def)
qed

subsection \<open>The KL divergence\<close>


lemma WaitExpanded_Some:
  assumes "WaitExpanded n = Some u"
  shows "expand_state (members n) = kExpanded"
proof (rule WaitExpanded.raw_induct [OF _ assms])
  fix f :: "Node \<Rightarrow> unit option" and n' u'
  assume "\<And>x y. f x = Some y \<Longrightarrow> expand_state (members x) = kExpanded"
    and "(if expand_state (members n') = kExpanded then Some () else f n') = Some u'"
  then show "expand_state (members n') = kExpanded"
    by (auto split: if_splits)
qed

lemma WaitExpanded_None:
  "expand_state (members n) \<noteq> kExpanded \<Longrightarrow> WaitExpanded n = None"
  using WaitExpanded_Some [of n] by (cases "WaitExpanded n") auto

lemma ComputeKlDivergence_not_expanded:
  "expand_state (members n) \<noteq> kExpanded \<Longrightarrow> ComputeKlDivergence env param tbl n = None"
  by (simp add: ComputeKlDivergence_def GetBestMove_def WaitExpanded_None)



















end
